theory Spec2Isabelle
  imports Complex_Main "HOL-Library.Option_ord"
begin

section \<open>Python strings and dictionaries\<close>

text \<open>
  Text is modelled as \<open>string\<close>, one \<open>char\<close> per character of the Python \<open>str\<close>, for
  the characters whose code point is below 256. \<open>lower\<close> is \<open>str.lower\<close> (the letters
  \<open>A\<close> to \<open>Z\<close>, and the capital letters of Latin-1 from 192 to 222 other than the
  multiplication sign 215), \<open>upper\<close> maps \<open>a\<close> to \<open>z\<close> to capitals, \<open>contains t s\<close> is the
  substring test \<open>t in s\<close>, \<open>isspace\<close> holds of the white space that \<open>str.strip()\<close>
  removes, and \<open>str_nat\<close> is \<open>str\<close> on a non-negative integer.
\<close>

definition lower_char :: "char \<Rightarrow> char" where
  "lower_char c =
     (let n = (of_char c :: nat)
      in if (65 \<le> n \<and> n \<le> 90) \<or> (192 \<le> n \<and> n \<le> 222 \<and> n \<noteq> 215)
         then char_of (n + 32) else c)"

definition lower :: "string \<Rightarrow> string" where
  "lower s = map lower_char s"

definition upper_char :: "char \<Rightarrow> char" where
  "upper_char c =
     (let n = (of_char c :: nat) in if 97 \<le> n \<and> n \<le> 122 then char_of (n - 32) else c)"

definition upper :: "string \<Rightarrow> string" where
  "upper s = map upper_char s"

fun startswith :: "string \<Rightarrow> string \<Rightarrow> bool" where
  "startswith s [] = True"
| "startswith [] (p # ps) = False"
| "startswith (c # s) (p # ps) = (c = p \<and> startswith s ps)"

fun contains :: "string \<Rightarrow> string \<Rightarrow> bool" where
  "contains t [] = (t = [])"
| "contains t (c # s) = (startswith (c # s) t \<or> contains t s)"

definition any_contains :: "string list \<Rightarrow> string \<Rightarrow> bool" where
  "any_contains terms s = list_ex (\<lambda>t. contains t s) terms"

definition isspace :: "char \<Rightarrow> bool" where
  "isspace c =
     (let n = (of_char c :: nat)
      in (9 \<le> n \<and> n \<le> 13) \<or> (28 \<le> n \<and> n \<le> 32) \<or> n = 133 \<or> n = 160)"

definition strip :: "string \<Rightarrow> string" where
  "strip s = rev (dropWhile isspace (rev (dropWhile isspace s)))"

definition digit_char :: "nat \<Rightarrow> char" where
  "digit_char d = char_of (48 + d)"

function str_nat :: "nat \<Rightarrow> string" where
  "str_nat n = (if n < 10 then [digit_char n] else str_nat (n div 10) @ [digit_char (n mod 10)])"
  by pat_completeness auto
termination
  by (relation "measure id") auto

declare str_nat.simps [simp del]

text \<open>
  The values stored in a metadata dictionary: a string, an integer or a list of strings.
  A dictionary is an association list in insertion order, as a Python \<open>dict\<close> is;
  \<open>dict_set\<close> is \<open>d[k] = v\<close>, \<open>dict_get\<close> is \<open>d.get(k)\<close> and \<open>dict_update\<close>
  is \<open>d.update(e)\<close>.
\<close>

datatype jval = JStr string | JInt int | JList "string list"

type_synonym pydict = "(string \<times> jval) list"

fun dict_set :: "pydict \<Rightarrow> string \<Rightarrow> jval \<Rightarrow> pydict" where
  "dict_set [] k v = [(k, v)]"
| "dict_set ((k', v') # d) k v = (if k' = k then (k, v) # d else (k', v') # dict_set d k v)"

definition dict_get :: "pydict \<Rightarrow> string \<Rightarrow> jval option" where
  "dict_get d k = map_of d k"

definition dict_update :: "pydict \<Rightarrow> pydict \<Rightarrow> pydict" where
  "dict_update d e = fold (\<lambda>(k, v) acc. dict_set acc k v) e d"

text \<open>
  A \<open>float\<close> is a number or NaN; rounding and the infinities are not modelled. \<open>py_ge\<close>
  is the comparison \<open>>=\<close>, which is false as soon as one side is NaN, and \<open>float_sub\<close> is
  the difference, which is NaN as soon as one side is.
\<close>

datatype pyfloat = NaN | Num real

definition py_ge :: "pyfloat \<Rightarrow> pyfloat \<Rightarrow> bool" where
  "py_ge a b = (case (a, b) of (Num x, Num y) \<Rightarrow> y \<le> x | _ \<Rightarrow> False)"

definition float_sub :: "pyfloat \<Rightarrow> pyfloat \<Rightarrow> pyfloat" where
  "float_sub a b = (case (a, b) of (Num x, Num y) \<Rightarrow> Num (x - y) | _ \<Rightarrow> NaN)"

text \<open>The exceptions that leave a function of the two pipelines, with their messages.\<close>

datatype py_exception =
  OperationalError string | DataError string | OSError string | FormatError string

section \<open>Metadata extraction from a filename (ingest.py)\<close>

text \<open>
  \<open>extract_metadata_from_filename\<close>: the \<open>if\<close>/\<open>elif\<close> chain on the document type,
  the loop with \<open>break\<close> over \<open>geographic_terms.items()\<close>, and the loop over
  \<open>ocean_topics.items()\<close> that appends to \<open>metadata['topics']\<close>.
\<close>

definition geographic_terms :: "(string \<times> string) list" where
  "geographic_terms =
     [(''baltic'', ''Baltic Sea''),
      (''north sea'', ''North Sea''),
      (''mediterranean'', ''Mediterranean Sea''),
      (''atlantic'', ''Atlantic Ocean''),
      (''pacific'', ''Pacific Ocean''),
      (''arctic'', ''Arctic Ocean'')]"

definition ocean_topics :: "(string \<times> string) list" where
  "ocean_topics =
     [(''seagrass'', ''seagrass_restoration''),
      (''coral'', ''coral_conservation''),
      (''biodiversity'', ''marine_biodiversity''),
      (''carbon'', ''blue_carbon''),
      (''plastic'', ''marine_pollution''),
      (''fishing'', ''sustainable_fisheries''),
      (''renewable'', ''offshore_renewable_energy'')]"

fun geographic_loop :: "(string \<times> string) list \<Rightarrow> string \<Rightarrow> pydict \<Rightarrow> pydict" where
  "geographic_loop [] filename_lower metadata = metadata"
| "geographic_loop ((term, region) # items) filename_lower metadata =
     (if contains term filename_lower
      then dict_set metadata ''geographic_focus'' (JStr region)
      else geographic_loop items filename_lower metadata)"

fun topics_loop :: "(string \<times> string) list \<Rightarrow> string \<Rightarrow> string list \<Rightarrow> string list" where
  "topics_loop [] filename_lower topics = topics"
| "topics_loop ((term, topic) # items) filename_lower topics =
     (if contains term filename_lower
      then topics_loop items filename_lower (topics @ [topic])
      else topics_loop items filename_lower topics)"

definition extract_metadata_from_filename :: "string \<Rightarrow> pydict" where
  "extract_metadata_from_filename filename =
     (let metadata = [];
          filename_lower = lower filename;
          metadata =
            (if any_contains [''sustainability'', ''esg'', ''csr''] filename_lower
             then dict_set metadata ''doc_type'' (JStr ''sustainability_report'')
             else if any_contains [''annual'', ''quarterly'', ''financial''] filename_lower
             then dict_set metadata ''doc_type'' (JStr ''company_report'')
             else if contains ''esrs'' filename_lower
                     \<or> contains ''european sustainability reporting'' filename_lower
             then dict_set metadata ''doc_type'' (JStr ''esrs_document'')
             else dict_set metadata ''doc_type'' (JStr ''unknown''));
          metadata = geographic_loop geographic_terms filename_lower metadata;
          metadata = dict_set metadata ''topics'' (JList (topics_loop ocean_topics filename_lower []))
      in metadata)"

text \<open>
  The rule tables of the specification: an ordered list of rules, each a list of keywords
  and a value. \<open>first_match\<close> gives the value of the first rule one of whose keywords occurs
  in the text, \<open>all_matches\<close> the values of all such rules in rule order.
\<close>

type_synonym rule = "string list \<times> string"

fun first_match :: "rule list \<Rightarrow> string \<Rightarrow> string option" where
  "first_match [] s = None"
| "first_match ((keys, v) # rules) s =
     (if any_contains keys s then Some v else first_match rules s)"

fun all_matches :: "rule list \<Rightarrow> string \<Rightarrow> string list" where
  "all_matches [] s = []"
| "all_matches ((keys, v) # rules) s =
     (if any_contains keys s then v # all_matches rules s else all_matches rules s)"

definition doc_type_rules :: "rule list" where
  "doc_type_rules =
     [([''sustainability'', ''esg'', ''csr''], ''sustainability_report''),
      ([''annual'', ''quarterly'', ''financial''], ''company_report''),
      ([''esrs'', ''european sustainability reporting''], ''esrs_document'')]"

definition geographic_rules :: "rule list" where
  "geographic_rules = map (\<lambda>(term, region). ([term], region)) geographic_terms"

definition topic_rules :: "rule list" where
  "topic_rules = map (\<lambda>(term, topic). ([term], topic)) ocean_topics"

definition spec_metadata :: "string \<Rightarrow> pydict" where
  "spec_metadata filename =
     (let s = lower filename in
      [(''doc_type'', JStr (case first_match doc_type_rules s of None \<Rightarrow> ''unknown'' | Some v \<Rightarrow> v))]
      @ (case first_match geographic_rules s of None \<Rightarrow> [] | Some r \<Rightarrow> [(''geographic_focus'', JStr r)])
      @ [(''topics'', JList (all_matches topic_rules s))])"

section \<open>The document store (database_setup.py)\<close>

text \<open>
  The two tables, with the columns the pipelines write and read. The timestamp columns
  (\<open>upload_date\<close>, \<open>created_at\<close>) are filled by the database clock and read by no
  operation here; they are left out. The primary keys are \<open>SERIAL\<close>: each table has a
  sequence whose next value is kept in the store. A row is written only by
  \<open>store_document\<close> and \<open>store_chunks\<close>, which give every column a value, so the nullable
  columns other than \<open>organization\<close> are not optional here. The store rejects a document
  row that does not fit the column types \<open>filename VARCHAR(255)\<close>, \<open>doc_type VARCHAR(100)\<close>,
  \<open>organization VARCHAR(255)\<close> and \<open>file_size INTEGER\<close>: \<open>document_row_error\<close> is the
  message of the error then. The embeddings are taken to have the dimension of the column
  \<open>embedding\<close>, whatever it is.
\<close>

type_synonym embedding = "real list"

record document =
  d_id :: nat
  d_filename :: string
  d_doc_type :: string
  d_organization :: "string option"
  d_file_size :: nat
  d_metadata :: pydict

record chunk =
  c_id :: nat
  c_doc_id :: nat
  c_chunk_index :: nat
  c_content :: string
  c_embedding :: embedding
  c_token_count :: nat
  c_metadata :: pydict

record store =
  documents_table :: "document list"
  chunks_table :: "chunk list"
  documents_id_seq :: nat
  chunks_id_seq :: nat

definition document_row_error :: "string \<Rightarrow> string \<Rightarrow> string option \<Rightarrow> nat \<Rightarrow> string option" where
  "document_row_error filename doc_type organization file_size =
     (if 255 < length filename then Some ''value too long for type character varying(255)''
      else if 100 < length doc_type then Some ''value too long for type character varying(100)''
      else if (case organization of None \<Rightarrow> False | Some org \<Rightarrow> 255 < length org)
      then Some ''value too long for type character varying(255)''
      else if 2147483647 < int file_size then Some ''integer out of range''
      else None)"

definition empty_store :: store where
  "empty_store =
     \<lparr>documents_table = [], chunks_table = [], documents_id_seq = 1, chunks_id_seq = 1\<rparr>"

text \<open>
  The foreign key of \<open>chunks.doc_id\<close> and the sequence of \<open>documents.id\<close>: every stored
  identity is below the next value of its sequence, and every chunk refers to an identity
  that the sequence has already handed out.
\<close>

definition store_ok :: "store \<Rightarrow> bool" where
  "store_ok s =
     (list_all (\<lambda>d. d_id d < documents_id_seq s) (documents_table s)
      \<and> list_all (\<lambda>c. c_doc_id c < documents_id_seq s) (chunks_table s))"

text \<open>
  The chunks of a document, and the invariant of the data model: the chunk indices of
  every stored document are \<open>0, ..., N - 1\<close> in table order.
\<close>

definition document_chunks :: "store \<Rightarrow> nat \<Rightarrow> chunk list" where
  "document_chunks s i = filter (\<lambda>c. c_doc_id c = i) (chunks_table s)"

definition contiguous_store :: "store \<Rightarrow> bool" where
  "contiguous_store s =
     list_all (\<lambda>d. map c_chunk_index (document_chunks s (d_id d))
                     = [0..<length (document_chunks s (d_id d))])
              (documents_table s)"

section \<open>The ingestion pipeline (ingest.py)\<close>

text \<open>
  What the ingestor takes from outside: the text splitter, the embeddings endpoint
  (\<open>Inl\<close> the message of the exception it raised) and the tokenizer; and, of a file, what
  \<open>pathlib\<close>, \<open>PyPDF2\<close> and \<open>open\<close> report about it. The store is taken to be
  reachable; the lines printed are returned as a list. \<open>store_document\<close> raises the error
  of the store when the row is rejected, and writes nothing then. \<open>ingest_document\<close>
  either returns a truth value (\<open>Inr\<close>) or is left by that exception (\<open>Inl\<close>).
\<close>

record ingest_env =
  split_text :: "string \<Rightarrow> string list"
  embeddings_create :: "string list \<Rightarrow> string + embedding list"
  count_tokens :: "string \<Rightarrow> nat"

record source_file =
  f_path :: string
  f_exists :: bool
  f_name :: string
  f_suffix :: string
  f_size :: nat
  f_pdf_pages :: "string + string list"
  f_read :: "string + string"

definition extract_text_from_pdf :: "source_file \<Rightarrow> string \<times> string list" where
  "extract_text_from_pdf f =
     (case f_pdf_pages f of
        Inl e \<Rightarrow> ([], [''Error extracting text from '' @ f_path f @ '': '' @ e])
      | Inr pages \<Rightarrow> (strip (concat (map (\<lambda>page. page @ ''\<newline>'') pages)), []))"

definition create_embeddings :: "ingest_env \<Rightarrow> string list \<Rightarrow> embedding list \<times> string list" where
  "create_embeddings env texts =
     (case embeddings_create env texts of
        Inl e \<Rightarrow> ([], [''Error creating embeddings: '' @ e])
      | Inr data \<Rightarrow> (data, []))"

definition document_exists :: "store \<Rightarrow> string \<Rightarrow> nat \<Rightarrow> bool" where
  "document_exists s filename file_size =
     list_ex (\<lambda>d. d_filename d = filename \<and> d_file_size d = file_size) (documents_table s)"

definition store_document ::
  "store \<Rightarrow> string \<Rightarrow> string \<Rightarrow> string option \<Rightarrow> nat \<Rightarrow> pydict
     \<Rightarrow> py_exception + nat \<times> store" where
  "store_document s filename doc_type organization file_size metadata =
     (case document_row_error filename doc_type organization file_size of
        Some e \<Rightarrow> Inl (DataError e)
      | None \<Rightarrow>
          (let doc_id = documents_id_seq s;
               row = \<lparr>d_id = doc_id, d_filename = filename, d_doc_type = doc_type,
                      d_organization = organization, d_file_size = file_size,
                      d_metadata = metadata\<rparr>
           in Inr (doc_id, s\<lparr>documents_table := documents_table s @ [row],
                              documents_id_seq := Suc doc_id\<rparr>)))"

fun store_chunks_loop ::
  "ingest_env \<Rightarrow> nat \<Rightarrow> nat \<Rightarrow> (string \<times> embedding \<times> pydict) list \<Rightarrow> store \<Rightarrow> store" where
  "store_chunks_loop env doc_id i [] s = s"
| "store_chunks_loop env doc_id i ((chunk, embedding, metadata) # rest) s =
     (let token_count = count_tokens env chunk;
          row = \<lparr>c_id = chunks_id_seq s, c_doc_id = doc_id, c_chunk_index = i,
                 c_content = chunk, c_embedding = embedding, c_token_count = token_count,
                 c_metadata = metadata\<rparr>
      in store_chunks_loop env doc_id (Suc i) rest
           (s\<lparr>chunks_table := chunks_table s @ [row], chunks_id_seq := Suc (chunks_id_seq s)\<rparr>))"

definition store_chunks ::
  "ingest_env \<Rightarrow> store \<Rightarrow> nat \<Rightarrow> string list \<Rightarrow> embedding list \<Rightarrow> pydict list \<Rightarrow> store" where
  "store_chunks env s doc_id chunks embeddings chunk_metadata =
     store_chunks_loop env doc_id 0 (zip chunks (zip embeddings chunk_metadata)) s"

text \<open>
  The stages of \<open>ingest_document\<close>. \<open>load_text\<close> is the extraction by file type (\<open>Inl\<close>
  when the read of a text file failed and the function returns \<open>False\<close>);
  \<open>make_chunk_metadata\<close> is the loop over \<open>enumerate(chunks)\<close>; \<open>embed_loop\<close> is the loop
  over \<open>range(0, len(chunks), batch_size)\<close>, returning \<open>all_embeddings\<close> and the lines it
  printed.
\<close>

definition load_text :: "source_file \<Rightarrow> (unit + string) \<times> string list" where
  "load_text f =
     (if lower (f_suffix f) = ''.pdf''
      then (let (text, out) = extract_text_from_pdf f in (Inr text, out))
      else (case f_read f of
              Inl e \<Rightarrow> (Inl (), [''Error reading file '' @ f_path f @ '': '' @ e])
            | Inr text \<Rightarrow> (Inr text, [])))"

definition make_chunk_metadata :: "pydict \<Rightarrow> string \<Rightarrow> string list \<Rightarrow> pydict list" where
  "make_chunk_metadata metadata filename chunks =
     map (\<lambda>(i, chunk).
            (let chunk_meta = metadata;
                 chunk_meta = dict_set chunk_meta ''chunk_index'' (JInt (int i));
                 chunk_meta = dict_set chunk_meta ''source_file'' (JStr filename)
             in chunk_meta))
         (enumerate 0 chunks)"

definition batch_size :: nat where
  "batch_size = 100"

function embed_loop ::
  "ingest_env \<Rightarrow> string list \<Rightarrow> nat \<Rightarrow> embedding list \<Rightarrow> string list
     \<Rightarrow> embedding list \<times> string list" where
  "embed_loop env chunks i all_embeddings printed =
     (if i < length chunks
      then (let batch_chunks = take batch_size (drop i chunks);
                (batch_embeddings, err) = create_embeddings env batch_chunks
            in embed_loop env chunks (i + batch_size) (all_embeddings @ batch_embeddings)
                 (printed @ err
                  @ [''Created embeddings for chunks '' @ str_nat (i + 1) @ ''-''
                     @ str_nat (min (i + batch_size) (length chunks))]))
      else (all_embeddings, printed))"
  by pat_completeness auto
termination
  by (relation "measure (\<lambda>(env, chunks, i, all_embeddings, printed). length chunks - i)")
     (auto simp: batch_size_def)

declare embed_loop.simps [simp del]

definition metadata_doc_type :: "pydict \<Rightarrow> string" where
  "metadata_doc_type metadata =
     (case dict_get metadata ''doc_type'' of Some (JStr t) \<Rightarrow> t | _ \<Rightarrow> ''unknown'')"

text \<open>
  A file and an organization whose document row fits the columns (the document type
  derived from a filename always fits).
\<close>

definition store_accepts_document :: "source_file \<Rightarrow> string option \<Rightarrow> bool" where
  "store_accepts_document f organization =
     (length (f_name f) \<le> 255
      \<and> (case organization of None \<Rightarrow> True | Some org \<Rightarrow> length org \<le> 255)
      \<and> int (f_size f) \<le> 2147483647)"

definition ingest_document ::
  "ingest_env \<Rightarrow> source_file \<Rightarrow> string option \<Rightarrow> store
     \<Rightarrow> (py_exception + bool) \<times> store \<times> string list" where
  "ingest_document env f organization s =
     (if \<not> f_exists f then (Inr False, s, [''File not found: '' @ f_path f])
      else
        let filename = f_name f; file_size = f_size f in
        if document_exists s filename file_size
        then (Inr True, s,
              [''Document '' @ filename @ '' already exists in database, skipping...''])
        else
          let out = [''Ingesting document: '' @ filename];
              (loaded, out_text) = load_text f;
              out = out @ out_text
          in case loaded of
               Inl _ \<Rightarrow> (Inr False, s, out)
             | Inr text \<Rightarrow>
                 if strip text = []
                 then (Inr False, s, out @ [''No text extracted from '' @ filename])
                 else
                   let metadata = extract_metadata_from_filename filename;
                       doc_type = metadata_doc_type metadata
                   in case store_document s filename doc_type organization file_size metadata of
                        Inl e \<Rightarrow> (Inl e, s, out)
                      | Inr (doc_id, s) \<Rightarrow>
                          let chunks = split_text env text;
                              out = out @ [''Created '' @ str_nat (length chunks)
                                           @ '' chunks from '' @ filename];
                              chunk_metadata = make_chunk_metadata metadata filename chunks;
                              (all_embeddings, out_embed) = embed_loop env chunks 0 [] [];
                              out = out @ out_embed
                          in if length all_embeddings \<noteq> length chunks
                             then (Inr False, s,
                                   out @ [''Error: Embedding count mismatch. Expected ''
                                          @ str_nat (length chunks) @ '', got ''
                                          @ str_nat (length all_embeddings)])
                             else
                               let s = store_chunks env s doc_id chunks all_embeddings
                                         chunk_metadata
                               in (Inr True, s,
                                   out @ [''Successfully ingested '' @ filename @ '' with ''
                                          @ str_nat (length chunks) @ '' chunks'']))"

section \<open>The retrieval pipeline (rag_retriever.py)\<close>

record SearchResult =
  content :: string
  doc_id :: nat
  chunk_id :: nat
  filename :: string
  organization :: "string option"
  doc_type :: string
  similarity_score :: pyfloat
  metadata :: pydict

text \<open>
  What the retriever takes from outside: the embeddings endpoint and the chat endpoint
  (\<open>Inl\<close> the message of the exception raised), whether \<open>psycopg2.connect\<close> raises, whether
  the store fails while it executes the query, the cosine distance \<open><=>\<close> of the store
  (a float: the store gives NaN when one of the vectors is zero), the prompt template
  file, \<open>str.format\<close> and \<open>round(x, 3)\<close>. The lines printed by the retriever are not
  modelled.
\<close>

datatype prompt_file = PromptMissing | PromptText string | PromptUnreadable string

record retriever_env =
  query_embeddings_create :: "string \<Rightarrow> string + embedding"
  connect_error :: "string option"
  execute_error :: "string option"
  cosine_distance :: "embedding \<Rightarrow> embedding \<Rightarrow> pyfloat"
  rag_prompt :: prompt_file
  str_format :: "string \<Rightarrow> string \<Rightarrow> string \<Rightarrow> py_exception + string"
  chat_completions_create :: "string \<Rightarrow> string + string \<times> pydict option"
  chat_model :: string
  round3 :: "pyfloat \<Rightarrow> pyfloat"

definition create_query_embedding :: "retriever_env \<Rightarrow> string \<Rightarrow> embedding" where
  "create_query_embedding env query_text =
     (case query_embeddings_create env query_text of Inl e \<Rightarrow> [] | Inr v \<Rightarrow> v)"

text \<open>
  The ranking query: the join of \<open>chunks\<close> with \<open>documents\<close> on \<open>c.doc_id = d.id\<close>, the
  score \<open>1 - (c.embedding <=> query)\<close>, \<open>ORDER BY similarity_score DESC\<close> and \<open>LIMIT\<close>.
  It has no \<open>WHERE\<close> clause. The store orders NaN above every number, so in descending
  order the rows of score NaN come first: \<open>desc_key\<close> is the key of that order. Rows of
  equal score are kept in table order (the store leaves their order open); a negative
  \<open>LIMIT\<close> is an error of the store.
\<close>

definition desc_key :: "pyfloat \<Rightarrow> real option" where
  "desc_key x = (case x of NaN \<Rightarrow> None | Num v \<Rightarrow> Some (- v))"

definition joined_rows :: "store \<Rightarrow> (chunk \<times> document) list" where
  "joined_rows s =
     concat (map (\<lambda>c. map (\<lambda>d. (c, d)) (filter (\<lambda>d. d_id d = c_doc_id c) (documents_table s)))
               (chunks_table s))"

definition row_score :: "retriever_env \<Rightarrow> embedding \<Rightarrow> chunk \<times> document \<Rightarrow> pyfloat" where
  "row_score env query_embedding row =
     float_sub (Num 1) (cosine_distance env (c_embedding (fst row)) query_embedding)"

definition execute_full_query ::
  "retriever_env \<Rightarrow> store \<Rightarrow> embedding \<Rightarrow> int \<Rightarrow> string + (chunk \<times> document) list" where
  "execute_full_query env s query_embedding limit =
     (if limit < 0 then Inl ''LIMIT must not be negative''
      else case execute_error env of
             Some e \<Rightarrow> Inl e
           | None \<Rightarrow>
               Inr (take (nat limit)
                      (sort_key (\<lambda>row. desc_key (row_score env query_embedding row))
                         (joined_rows s))))"

definition row_result :: "retriever_env \<Rightarrow> embedding \<Rightarrow> chunk \<times> document \<Rightarrow> SearchResult" where
  "row_result env query_embedding row =
     (let c = fst row; d = snd row;
          md = [];
          md = (if c_metadata c \<noteq> [] then dict_update md (c_metadata c) else md);
          md = (if d_metadata d \<noteq> [] then dict_update md (d_metadata d) else md)
      in \<lparr>content = c_content c, doc_id = c_doc_id c, chunk_id = c_id c,
          filename = d_filename d, organization = d_organization d, doc_type = d_doc_type d,
          similarity_score = row_score env query_embedding row, metadata = md\<rparr>)"

definition search_similar_chunks ::
  "retriever_env \<Rightarrow> store \<Rightarrow> embedding \<Rightarrow> int \<Rightarrow> real
     \<Rightarrow> string option \<Rightarrow> string option \<Rightarrow> string option
     \<Rightarrow> py_exception + SearchResult list" where
  "search_similar_chunks env s query_embedding limit similarity_threshold
       doc_type_filter geographic_filter topic_filter =
     (case connect_error env of
        Some e \<Rightarrow> Inl (OperationalError e)
      | None \<Rightarrow>
          (case execute_full_query env s query_embedding limit of
             Inl e \<Rightarrow> Inr []
           | Inr results \<Rightarrow> Inr (map (row_result env query_embedding) results)))"

text \<open>
  The ranking query has no predicate for the filters. What the specification asks of a
  result under each filter: its document type, the \<open>geographic_focus\<close> entry and the
  \<open>topics\<close> entry of its metadata.
\<close>

definition matches_filters ::
  "string option \<Rightarrow> string option \<Rightarrow> string option \<Rightarrow> SearchResult \<Rightarrow> bool" where
  "matches_filters doc_type_filter geographic_filter topic_filter r =
     ((case doc_type_filter of None \<Rightarrow> True | Some t \<Rightarrow> doc_type r = t)
      \<and> (case geographic_filter of None \<Rightarrow> True
          | Some g \<Rightarrow> dict_get (metadata r) ''geographic_focus'' = Some (JStr g))
      \<and> (case topic_filter of None \<Rightarrow> True
          | Some t \<Rightarrow> (case dict_get (metadata r) ''topics'' of
                        Some (JList ts) \<Rightarrow> t \<in> set ts | _ \<Rightarrow> False)))"

subsection \<open>Context assembly\<close>

definition str_opt :: "string option \<Rightarrow> string" where
  "str_opt x = (case x of None \<Rightarrow> ''None'' | Some v \<Rightarrow> v)"

definition content_with_source :: "SearchResult \<Rightarrow> string" where
  "content_with_source result =
     (let source_info = ''[Source: '' @ filename result @ '' - '' @ str_opt (organization result) @ '']''
      in source_info @ ''\<newline>'' @ content result @ ''\<newline>'')"

definition estimated_tokens :: "string \<Rightarrow> int" where
  "estimated_tokens block = int (length block) div 4"

fun context_loop :: "SearchResult list \<Rightarrow> int \<Rightarrow> string list \<Rightarrow> int \<Rightarrow> string list" where
  "context_loop [] max_tokens context_parts total_length = context_parts"
| "context_loop (result # rest) max_tokens context_parts total_length =
     (let block = content_with_source result;
          tokens = estimated_tokens block
      in if total_length + tokens > max_tokens then context_parts
         else context_loop rest max_tokens (context_parts @ [block]) (total_length + tokens))"

fun join :: "string \<Rightarrow> string list \<Rightarrow> string" where
  "join sep [] = []"
| "join sep [x] = x"
| "join sep (x # y # ys) = x @ sep @ join sep (y # ys)"

definition prepare_context :: "SearchResult list \<Rightarrow> int \<Rightarrow> string" where
  "prepare_context search_results max_tokens =
     (if search_results = [] then ''No relevant information found.''
      else join ''\<newline>---\<newline>'' (context_loop search_results max_tokens [] 0))"

text \<open>
  The words of the specification, for comparison: a block costs its length in characters
  divided by four, a list of blocks costs the sum, and the assembled context is the kept
  blocks with the delimiter between each two.
\<close>

definition cumulative_cost :: "string list \<Rightarrow> int" where
  "cumulative_cost blocks = sum_list (map (\<lambda>block. int (length block) div 4) blocks)"

definition separated :: "string \<Rightarrow> string list \<Rightarrow> string" where
  "separated sep blocks =
     (case blocks of [] \<Rightarrow> [] | b # rest \<Rightarrow> b @ concat (map (\<lambda>x. sep @ x) rest))"

subsection \<open>Answer generation and the query operation\<close>

record response =
  r_answer :: string
  r_model :: string
  r_usage :: pydict

record source =
  s_filename :: string
  s_organization :: "string option"
  s_doc_type :: string
  s_similarity_score :: pyfloat
  s_geographic_focus :: "jval option"
  s_topics :: jval

record query_metadata =
  m_question :: string
  m_results_count :: nat
  m_model_usage :: pydict
  m_filters_applied :: "string option \<times> string option \<times> string option"

text \<open>
  The dictionary that \<open>query\<close> returns. Its \<open>metadata\<close> entry is the empty dictionary
  (\<open>None\<close> here) on the short-circuit and the four entries of \<open>query_metadata\<close> otherwise.
\<close>

record query_result =
  q_answer :: string
  q_sources :: "source list"
  q_context :: string
  q_metadata :: "query_metadata option"

definition default_prompt_template :: string where
  "default_prompt_template =
     ''You are an expert marine scientist and ocean sustainability specialist. Answer the user's question based on the provided context from ocean research documents.\<newline>''
     @ ''\<newline>''
     @ ''Guidelines:\<newline>''
     @ ''- Use only information from the provided context\<newline>''
     @ ''- Be specific and cite sources when possible\<newline>''
     @ ''- If the context doesn't contain relevant information, say so\<newline>''
     @ ''- Focus on ocean sustainability, marine ecosystems, and environmental impacts\<newline>''
     @ ''- Provide practical insights when available\<newline>''
     @ ''\<newline>''
     @ ''Context:\<newline>''
     @ ''{context}\<newline>''
     @ ''\<newline>''
     @ ''Question: {question}\<newline>''
     @ ''\<newline>''
     @ ''Answer:''"

definition generate_response :: "retriever_env \<Rightarrow> string \<Rightarrow> string \<Rightarrow> py_exception + response" where
  "generate_response env question context_text =
     (case rag_prompt env of
        PromptUnreadable e \<Rightarrow> Inl (OSError e)
      | p \<Rightarrow>
          (let prompt_template = (case p of PromptText t \<Rightarrow> t | _ \<Rightarrow> default_prompt_template)
           in case str_format env prompt_template context_text question of
                Inl e \<Rightarrow> Inl e
              | Inr formatted_prompt \<Rightarrow>
                  (case chat_completions_create env formatted_prompt of
                     Inl e \<Rightarrow>
                       Inr \<lparr>r_answer = ''Error generating response: '' @ e,
                            r_model = chat_model env, r_usage = []\<rparr>
                   | Inr (message, usage) \<Rightarrow>
                       Inr \<lparr>r_answer = message, r_model = chat_model env,
                            r_usage = (case usage of None \<Rightarrow> [] | Some u \<Rightarrow> u)\<rparr>)))"

definition result_source :: "retriever_env \<Rightarrow> SearchResult \<Rightarrow> source" where
  "result_source env result =
     \<lparr>s_filename = filename result,
      s_organization = organization result,
      s_doc_type = doc_type result,
      s_similarity_score = round3 env (similarity_score result),
      s_geographic_focus = dict_get (metadata result) ''geographic_focus'',
      s_topics = (case dict_get (metadata result) ''topics'' of None \<Rightarrow> JList [] | Some v \<Rightarrow> v)\<rparr>"

definition query ::
  "retriever_env \<Rightarrow> store \<Rightarrow> string \<Rightarrow> int \<Rightarrow> real
     \<Rightarrow> string option \<Rightarrow> string option \<Rightarrow> string option
     \<Rightarrow> py_exception + query_result" where
  "query env s question max_results similarity_threshold
       doc_type_filter geographic_filter topic_filter =
     (let query_embedding = create_query_embedding env question in
      if query_embedding = []
      then Inr \<lparr>q_answer = ''Error creating query embedding'', q_sources = [],
                q_context = [], q_metadata = None\<rparr>
      else
        case search_similar_chunks env s query_embedding max_results similarity_threshold
               doc_type_filter geographic_filter topic_filter of
          Inl e \<Rightarrow> Inl e
        | Inr search_results \<Rightarrow>
            (let context_text = prepare_context search_results 3000 in
             case generate_response env question context_text of
               Inl e \<Rightarrow> Inl e
             | Inr response_data \<Rightarrow>
                 Inr \<lparr>q_answer = r_answer response_data,
                      q_sources = map (result_source env) search_results,
                      q_context = context_text,
                      q_metadata = Some \<lparr>m_question = question,
                                         m_results_count = length search_results,
                                         m_model_usage = r_usage response_data,
                                         m_filters_applied =
                                           (doc_type_filter, geographic_filter, topic_filter)\<rparr>\<rparr>))"

section \<open>Example inputs\<close>

text \<open>
  A text file, a splitter that cuts a text in two, an embeddings endpoint that answers
  every text, and one that always fails.
\<close>

definition report_file :: source_file where
  "report_file =
     \<lparr>f_path = ''docs/baltic_seagrass_report.txt'', f_exists = True,
      f_name = ''baltic_seagrass_report.txt'', f_suffix = ''.txt'', f_size = 12,
      f_pdf_pages = Inl ''not a PDF'', f_read = Inr ''hello world!''\<rparr>"

definition working_ingest_env :: ingest_env where
  "working_ingest_env =
     \<lparr>split_text = (\<lambda>text. [take 6 text, drop 6 text]),
      embeddings_create = (\<lambda>texts. Inr (map (\<lambda>t. [real (length t), 1]) texts)),
      count_tokens = length\<rparr>"

definition failing_ingest_env :: ingest_env where
  "failing_ingest_env =
     \<lparr>split_text = (\<lambda>text. [take 6 text, drop 6 text]),
      embeddings_create = (\<lambda>texts. Inl ''rate limit''),
      count_tokens = length\<rparr>"

definition report_document :: document where
  "report_document =
     \<lparr>d_id = 1, d_filename = ''baltic_seagrass_report.txt'', d_doc_type = ''unknown'',
      d_organization = None, d_file_size = 12,
      d_metadata = [(''doc_type'', JStr ''unknown''), (''geographic_focus'', JStr ''Baltic Sea''),
                    (''topics'', JList [''seagrass_restoration''])]\<rparr>"

definition report_chunk_metadata :: "int \<Rightarrow> pydict" where
  "report_chunk_metadata i =
     [(''doc_type'', JStr ''unknown''), (''geographic_focus'', JStr ''Baltic Sea''),
      (''topics'', JList [''seagrass_restoration'']), (''chunk_index'', JInt i),
      (''source_file'', JStr ''baltic_seagrass_report.txt'')]"

definition report_store :: store where
  "report_store =
     \<lparr>documents_table = [report_document],
      chunks_table =
        [\<lparr>c_id = 1, c_doc_id = 1, c_chunk_index = 0, c_content = ''hello '',
          c_embedding = [6, 1], c_token_count = 6, c_metadata = report_chunk_metadata 0\<rparr>,
         \<lparr>c_id = 2, c_doc_id = 1, c_chunk_index = 1, c_content = ''world!'',
          c_embedding = [6, 1], c_token_count = 6, c_metadata = report_chunk_metadata 1\<rparr>],
      documents_id_seq = 2, chunks_id_seq = 3\<rparr>"

definition orphan_store :: store where
  "orphan_store =
     \<lparr>documents_table = [report_document], chunks_table = [],
      documents_id_seq = 2, chunks_id_seq = 1\<rparr>"

text \<open>
  A store with one company report of two chunks, and a retriever whose store measures
  the distance of two vectors by one minus their inner product (the cosine distance of
  unit vectors), and by NaN when one of them is zero. The results of a search in it, a
  result of a longer content, the same store with a zero vector stored for the first
  chunk, and the results whose score is NaN.
\<close>

definition annual_store :: store where
  "annual_store =
     \<lparr>documents_table =
        [\<lparr>d_id = 1, d_filename = ''annual_report.txt'', d_doc_type = ''company_report'',
          d_organization = Some ''Acme'', d_file_size = 20,
          d_metadata = [(''doc_type'', JStr ''company_report''), (''topics'', JList [])]\<rparr>],
      chunks_table =
        [\<lparr>c_id = 1, c_doc_id = 1, c_chunk_index = 0, c_content = ''revenue'',
          c_embedding = [0, 1], c_token_count = 1, c_metadata = []\<rparr>,
         \<lparr>c_id = 2, c_doc_id = 1, c_chunk_index = 1, c_content = ''outlook'',
          c_embedding = [1, 0], c_token_count = 1, c_metadata = []\<rparr>],
      documents_id_seq = 2, chunks_id_seq = 3\<rparr>"

definition working_retriever_env :: retriever_env where
  "working_retriever_env =
     \<lparr>query_embeddings_create = (\<lambda>q. Inr [1, 0]),
      connect_error = None,
      execute_error = None,
      cosine_distance =
        (\<lambda>a b. if list_all (\<lambda>x. x = 0) a \<or> list_all (\<lambda>x. x = 0) b then NaN
                else Num (1 - sum_list (map2 (*) a b))),
      rag_prompt = PromptMissing,
      str_format = (\<lambda>template context_text question. Inr (context_text @ question)),
      chat_completions_create = (\<lambda>prompt. Inr (''An answer.'', None)),
      chat_model = ''gpt'',
      round3 = (\<lambda>x. x)\<rparr>"

definition no_embedding_env :: retriever_env where
  "no_embedding_env =
     working_retriever_env\<lparr>query_embeddings_create := (\<lambda>q. Inl ''timeout'')\<rparr>"

definition no_connection_env :: retriever_env where
  "no_connection_env = working_retriever_env\<lparr>connect_error := Some ''connection refused''\<rparr>"

definition outlook_result :: SearchResult where
  "outlook_result =
     \<lparr>content = ''outlook'', doc_id = 1, chunk_id = 2, filename = ''annual_report.txt'',
      organization = Some ''Acme'', doc_type = ''company_report'', similarity_score = Num 1,
      metadata = [(''doc_type'', JStr ''company_report''), (''topics'', JList [])]\<rparr>"

definition revenue_result :: SearchResult where
  "revenue_result =
     \<lparr>content = ''revenue'', doc_id = 1, chunk_id = 1, filename = ''annual_report.txt'',
      organization = Some ''Acme'', doc_type = ''company_report'', similarity_score = Num 0,
      metadata = [(''doc_type'', JStr ''company_report''), (''topics'', JList [])]\<rparr>"

definition growth_result :: SearchResult where
  "growth_result =
     \<lparr>content = ''revenue grew'', doc_id = 1, chunk_id = 3, filename = ''annual_report.txt'',
      organization = Some ''Acme'', doc_type = ''company_report'', similarity_score = Num (1 / 2),
      metadata = [(''doc_type'', JStr ''company_report''), (''topics'', JList [])]\<rparr>"

definition zero_vector_store :: store where
  "zero_vector_store =
     annual_store\<lparr>chunks_table :=
        [\<lparr>c_id = 1, c_doc_id = 1, c_chunk_index = 0, c_content = ''revenue'',
          c_embedding = [0, 0], c_token_count = 1, c_metadata = []\<rparr>,
         \<lparr>c_id = 2, c_doc_id = 1, c_chunk_index = 1, c_content = ''outlook'',
          c_embedding = [1, 0], c_token_count = 1, c_metadata = []\<rparr>]\<rparr>"

definition revenue_nan_result :: SearchResult where
  "revenue_nan_result = revenue_result\<lparr>similarity_score := NaN\<rparr>"

definition outlook_nan_result :: SearchResult where
  "outlook_nan_result = outlook_result\<lparr>similarity_score := NaN\<rparr>"

section \<open>Properties of the metadata extraction\<close>

lemma topics_loop_all_matches:
  "topics_loop items s topics
     = topics @ all_matches (map (\<lambda>(term, topic). ([term], topic)) items) s"
  by (induction items arbitrary: topics) (auto simp: any_contains_def)

lemma geographic_loop_first_match:
  "geographic_loop items s m =
     (case first_match (map (\<lambda>(term, region). ([term], region)) items) s of
        None \<Rightarrow> m
      | Some r \<Rightarrow> dict_set m ''geographic_focus'' (JStr r))"
  by (induction items) (auto simp: any_contains_def)

lemma extract_metadata_refines:
  "extract_metadata_from_filename name = spec_metadata name"
  unfolding extract_metadata_from_filename_def spec_metadata_def Let_def
    geographic_loop_first_match geographic_rules_def topic_rules_def
  using topics_loop_all_matches [of ocean_topics "lower name" "[]"]
  by (simp add: doc_type_rules_def any_contains_def split: option.splits)

lemma lower_upper_char: "lower_char (upper_char c) = lower_char c"
proof (cases "97 \<le> (of_char c :: nat) \<and> (of_char c :: nat) \<le> 122")
  case True
  define n where "n = (of_char c :: nat)"
  have n: "97 \<le> n" "n \<le> 122" using True by (simp_all add: n_def)
  have up: "upper_char c = char_of (n - 32)"
    using True by (simp add: upper_char_def n_def)
  have "(of_char (char_of (n - 32)) :: nat) = n - 32"
    using n by simp
  moreover have "65 \<le> n - 32" "n - 32 \<le> 90" "n - 32 + 32 = n" "\<not> n \<le> 90" "\<not> 192 \<le> n"
    using n by simp_all
  ultimately have "lower_char (char_of (n - 32)) = char_of n" "lower_char c = c"
    by (simp_all add: lower_char_def n_def [symmetric])
  then show ?thesis using up by (simp add: n_def)
next
  case False
  then show ?thesis by (auto simp add: upper_char_def Let_def)
qed

lemma lower_upper: "lower (upper s) = lower s"
  by (simp add: lower_def upper_def lower_upper_char)

lemma all_matches_values: "set (all_matches rules s) \<subseteq> set (map snd rules)"
  by (induction rules) (auto split: if_splits)

lemma distinct_all_matches:
  "distinct (map snd rules) \<Longrightarrow> distinct (all_matches rules s)"
proof (induction rules)
  case Nil
  then show ?case by simp
next
  case (Cons r rules)
  obtain keys v where r: "r = (keys, v)" by (cases r)
  have "v \<notin> set (all_matches rules s)"
    using all_matches_values [of rules s] Cons.prems r by auto
  then show ?case using Cons r by simp
qed

lemma distinct_topic_tags: "distinct (map snd topic_rules)"
  by (simp add: topic_rules_def ocean_topics_def)

text \<open>
  C6. The metadata of a filename is a function of the lower-cased filename and the rule
  tables alone: \<open>doc_type\<close> is the value of the first matching document type rule and
  \<open>''unknown''\<close> when none matches, \<open>geographic_focus\<close> is the value of the first matching
  geographic rule and is absent when none matches, and \<open>topics\<close> lists the tags of all
  matching topic rules in rule order, without duplicates. Changing the case of the
  filename changes nothing. For \<open>baltic_seagrass_report.pdf\<close> the result has document
  type \<open>unknown\<close>, geographic focus \<open>Baltic Sea\<close> and the topic \<open>seagrass_restoration\<close>.
\<close>

theorem extract_metadata_by_rules:
  "extract_metadata_from_filename name = spec_metadata name
   \<and> distinct (all_matches topic_rules (lower name))
   \<and> extract_metadata_from_filename (upper name) = extract_metadata_from_filename name
   \<and> extract_metadata_from_filename ''baltic_seagrass_report.pdf''
       = [(''doc_type'', JStr ''unknown''), (''geographic_focus'', JStr ''Baltic Sea''),
          (''topics'', JList [''seagrass_restoration''])]
   \<and> extract_metadata_from_filename ''Baltic_SeaGrass_Report.PDF''
       = extract_metadata_from_filename ''baltic_seagrass_report.pdf''"
proof (intro conjI)
  show "extract_metadata_from_filename name = spec_metadata name"
    by (rule extract_metadata_refines)
  show "distinct (all_matches topic_rules (lower name))"
    by (rule distinct_all_matches [OF distinct_topic_tags])
  show "extract_metadata_from_filename (upper name) = extract_metadata_from_filename name"
    by (simp add: extract_metadata_from_filename_def lower_upper)
  show "extract_metadata_from_filename ''baltic_seagrass_report.pdf''
       = [(''doc_type'', JStr ''unknown''), (''geographic_focus'', JStr ''Baltic Sea''),
          (''topics'', JList [''seagrass_restoration''])]"
    by code_simp
  show "extract_metadata_from_filename ''Baltic_SeaGrass_Report.PDF''
       = extract_metadata_from_filename ''baltic_seagrass_report.pdf''"
    by code_simp
qed

section \<open>Properties of the ingestion pipeline\<close>

lemma loop_documents [simp]:
  "documents_table (store_chunks_loop env d i rows s) = documents_table s"
  by (induction rows arbitrary: s i) (auto simp: Let_def)

lemma loop_doc_seq [simp]:
  "documents_id_seq (store_chunks_loop env d i rows s) = documents_id_seq s"
  by (induction rows arbitrary: s i) (auto simp: Let_def)

lemma loop_chunks:
  "\<exists>new. chunks_table (store_chunks_loop env d i rows s) = chunks_table s @ new
     \<and> map c_chunk_index new = [i..<i + length rows]
     \<and> map c_content new = map fst rows
     \<and> map c_embedding new = map (fst \<circ> snd) rows
     \<and> list_all (\<lambda>c. c_doc_id c = d) new"
proof (induction rows arbitrary: s i)
  case Nil
  then show ?case by simp
next
  case (Cons r rows)
  obtain chunk embedding metadata where r: "r = (chunk, embedding, metadata)"
    by (cases r) auto
  define row where "row = \<lparr>c_id = chunks_id_seq s, c_doc_id = d, c_chunk_index = i,
                 c_content = chunk, c_embedding = embedding, c_token_count = count_tokens env chunk,
                 c_metadata = metadata\<rparr>"
  define s1 where "s1 = s\<lparr>chunks_table := chunks_table s @ [row], chunks_id_seq := Suc (chunks_id_seq s)\<rparr>"
  have step: "store_chunks_loop env d i (r # rows) s = store_chunks_loop env d (Suc i) rows s1"
    by (simp add: r row_def s1_def Let_def)
  from Cons.IH [of "Suc i" s1] obtain new where
    new: "chunks_table (store_chunks_loop env d (Suc i) rows s1) = chunks_table s1 @ new"
      "map c_chunk_index new = [Suc i..<Suc i + length rows]"
      "map c_content new = map fst rows"
      "map c_embedding new = map (fst \<circ> snd) rows"
      "list_all (\<lambda>c. c_doc_id c = d) new"
    by blast
  have "chunks_table (store_chunks_loop env d i (r # rows) s) = chunks_table s @ (row # new)"
    using step new(1) by (simp add: s1_def)
  moreover have "map c_chunk_index (row # new) = [i..<i + length (r # rows)]"
  proof -
    have "[i..<i + length (r # rows)] = i # [Suc i..<Suc i + length rows]"
      by (simp add: upt_conv_Cons del: upt_Suc)
    moreover have "map c_chunk_index (row # new) = i # map c_chunk_index new"
      by (simp add: row_def)
    ultimately show ?thesis using new(2) by simp
  qed
  moreover have "map c_content (row # new) = map fst (r # rows)"
    using new(3) by (simp add: row_def r)
  moreover have "map c_embedding (row # new) = map (fst \<circ> snd) (r # rows)"
    using new(4) by (simp add: row_def r)
  moreover have "list_all (\<lambda>c. c_doc_id c = d) (row # new)"
    using new(5) by (simp add: row_def)
  ultimately show ?case by blast
qed

lemma store_chunks_documents [simp]:
  "documents_table (store_chunks env s d cs es ms) = documents_table s"
  by (simp add: store_chunks_def)

lemma store_ok_fresh:
  "store_ok s \<Longrightarrow> filter (\<lambda>c. c_doc_id c = documents_id_seq s) (chunks_table s) = []"
  by (auto simp: store_ok_def list_all_iff filter_empty_conv)

lemma length_make_chunk_metadata [simp]:
  "length (make_chunk_metadata m n cs) = length cs"
  by (simp add: make_chunk_metadata_def enumerate_eq_zip)

lemma store_chunks_rows:
  assumes "length es = length cs" "length ms = length cs"
  shows "\<exists>new. chunks_table (store_chunks env s d cs es ms) = chunks_table s @ new
     \<and> map c_chunk_index new = [0..<length cs]
     \<and> map c_content new = cs
     \<and> map c_embedding new = es
     \<and> list_all (\<lambda>c. c_doc_id c = d) new"
proof -
  let ?rows = "zip cs (zip es ms)"
  have len: "length ?rows = length cs" using assms by simp
  have f: "map fst ?rows = cs" using assms by (simp add: map_fst_zip)
  have g: "map (fst \<circ> snd) ?rows = es"
  proof -
    have "map snd ?rows = zip es ms" using assms by (simp add: map_snd_zip)
    then have "map fst (map snd ?rows) = es" using assms by (simp add: map_fst_zip)
    then show ?thesis by simp
  qed
  from loop_chunks [of env d 0 ?rows s] show ?thesis
    unfolding store_chunks_def using len f g by auto
qed

lemma first_match_values:
  "first_match rules s = Some v \<Longrightarrow> v \<in> set (map snd rules)"
  by (induction rules) (auto split: if_splits)

lemma doc_type_fits:
  "length (metadata_doc_type (extract_metadata_from_filename name)) \<le> 100"
proof -
  have m: "metadata_doc_type (extract_metadata_from_filename name)
      = (case first_match doc_type_rules (lower name) of None \<Rightarrow> ''unknown'' | Some v \<Rightarrow> v)"
    by (simp add: extract_metadata_refines spec_metadata_def metadata_doc_type_def dict_get_def
        Let_def)
  show ?thesis
  proof (cases "first_match doc_type_rules (lower name)")
    case None
    then show ?thesis using m by simp
  next
    case (Some v)
    then have "v \<in> set (map snd doc_type_rules)" by (rule first_match_values)
    then have "length v \<le> 100" by (auto simp: doc_type_rules_def)
    then show ?thesis using m Some by simp
  qed
qed

lemma store_accepts_no_error:
  "store_accepts_document f org \<Longrightarrow>
   document_row_error (f_name f) (metadata_doc_type (extract_metadata_from_filename (f_name f)))
     org (f_size f) = None"
  using doc_type_fits [of "f_name f"]
  by (auto simp: store_accepts_document_def document_row_error_def split: option.splits)

lemma store_document_Inr:
  assumes "store_document s n t org sz m = Inr (i, sd)"
  shows "i = documents_id_seq s"
    and "sd = s\<lparr>documents_table := documents_table s @
                 [\<lparr>d_id = documents_id_seq s, d_filename = n, d_doc_type = t,
                   d_organization = org, d_file_size = sz, d_metadata = m\<rparr>],
               documents_id_seq := Suc (documents_id_seq s)\<rparr>"
  using assms by (auto simp: store_document_def Let_def split: option.splits)

lemma store_document_Inl:
  "store_document s n t org sz m = Inl e \<Longrightarrow>
   \<exists>msg. document_row_error n t org sz = Some msg \<and> e = DataError msg"
  by (auto simp: store_document_def Let_def split: option.splits)

lemma store_document_accepted:
  "document_row_error n t org sz = None \<Longrightarrow>
   \<exists>sd. store_document s n t org sz m = Inr (documents_id_seq s, sd)"
  by (simp add: store_document_def Let_def)

lemma ingest_skip:
  "f_exists f \<Longrightarrow> document_exists s (f_name f) (f_size f) \<Longrightarrow>
   ingest_document env f org s =
     (Inr True, s, [''Document '' @ f_name f @ '' already exists in database, skipping...''])"
  by (simp add: ingest_document_def)

lemma ingest_rejected:
  assumes "f_exists f" "\<not> document_exists s (f_name f) (f_size f)"
    and "load_text f = (Inr body, out0)" "strip body \<noteq> []"
    and "store_document s (f_name f)
           (metadata_doc_type (extract_metadata_from_filename (f_name f))) org (f_size f)
           (extract_metadata_from_filename (f_name f)) = Inl e"
  shows "ingest_document env f org s = (Inl e, s, [''Ingesting document: '' @ f_name f] @ out0)"
  using assms by (simp add: ingest_document_def Let_def)

lemma ingest_fresh:
  assumes "f_exists f" "\<not> document_exists s (f_name f) (f_size f)"
    and "load_text f = (Inr body, out0)" "strip body \<noteq> []"
    and "store_document s (f_name f)
           (metadata_doc_type (extract_metadata_from_filename (f_name f))) org (f_size f)
           (extract_metadata_from_filename (f_name f)) = Inr (i, sd)"
  shows "ingest_document env f org s =
     (let chunks = split_text env body;
          out = [''Ingesting document: '' @ f_name f] @ out0 @
                [''Created '' @ str_nat (length chunks) @ '' chunks from '' @ f_name f]
                @ snd (embed_loop env chunks 0 [] []);
          all_embeddings = fst (embed_loop env chunks 0 [] [])
      in if length all_embeddings \<noteq> length chunks
         then (Inr False, sd, out @ [''Error: Embedding count mismatch. Expected ''
                                             @ str_nat (length chunks) @ '', got ''
                                             @ str_nat (length all_embeddings)])
         else (Inr True, store_chunks env sd i chunks all_embeddings
                       (make_chunk_metadata (extract_metadata_from_filename (f_name f))
                          (f_name f) chunks),
               out @ [''Successfully ingested '' @ f_name f @ '' with ''
                                            @ str_nat (length chunks) @ '' chunks'']))"
  using assms
  by (simp add: ingest_document_def Let_def split: prod.splits)

lemma ingest_store_cases:
  assumes "ingest_document env f org s = (r, s1, out)"
  shows "s1 = s \<or> (f_exists f \<and> \<not> document_exists s (f_name f) (f_size f) \<and>
       (\<exists>body out0 i sd. load_text f = (Inr body, out0) \<and> strip body \<noteq> [] \<and>
          store_document s (f_name f)
            (metadata_doc_type (extract_metadata_from_filename (f_name f))) org (f_size f)
            (extract_metadata_from_filename (f_name f)) = Inr (i, sd)))"
proof (cases "f_exists f \<and> \<not> document_exists s (f_name f) (f_size f)")
  case False
  then show ?thesis using assms
    by (auto simp: ingest_document_def Let_def split: if_splits)
next
  case True
  obtain loaded out0 where l: "load_text f = (loaded, out0)" by (cases "load_text f")
  show ?thesis
  proof (cases loaded)
    case (Inl u)
    then show ?thesis using assms True l by (simp add: ingest_document_def Let_def)
  next
    case (Inr body)
    show ?thesis
    proof (cases "strip body = []")
      case True
      then show ?thesis using assms \<open>f_exists f \<and> \<not> document_exists s (f_name f) (f_size f)\<close> l Inr
        by (simp add: ingest_document_def Let_def)
    next
      case ne: False
      show ?thesis
      proof (cases "store_document s (f_name f)
            (metadata_doc_type (extract_metadata_from_filename (f_name f))) org (f_size f)
            (extract_metadata_from_filename (f_name f))")
        case (Inl e)
        have "ingest_document env f org s = (Inl e, s, [''Ingesting document: '' @ f_name f] @ out0)"
          using True l Inr ne Inl by (intro ingest_rejected) auto
        then show ?thesis using assms by simp
      next
        case (Inr p)
        then show ?thesis using True l \<open>loaded = Inr body\<close> ne by (cases p) auto
      qed
    qed
  qed
qed

lemma ingest_result_cases:
  assumes "ingest_document env f org s = (Inr True, s1, out)"
  shows "f_exists f \<and>
     ((document_exists s (f_name f) (f_size f) \<and> s1 = s) \<or>
      (\<not> document_exists s (f_name f) (f_size f) \<and>
       (\<exists>body out0 i sd. load_text f = (Inr body, out0) \<and> strip body \<noteq> [] \<and>
          store_document s (f_name f)
            (metadata_doc_type (extract_metadata_from_filename (f_name f))) org (f_size f)
            (extract_metadata_from_filename (f_name f)) = Inr (i, sd))))"
proof -
  have ex: "f_exists f"
    using assms by (auto simp: ingest_document_def split: if_splits)
  show ?thesis
  proof (cases "document_exists s (f_name f) (f_size f)")
    case True
    then show ?thesis using assms ex by (simp add: ingest_document_def)
  next
    case False
    obtain loaded out0 where l: "load_text f = (loaded, out0)" by (cases "load_text f")
    have "\<exists>body. loaded = Inr body \<and> strip body \<noteq> []"
    proof (cases loaded)
      case (Inl u)
      then show ?thesis using assms ex False l by (simp add: ingest_document_def Let_def)
    next
      case (Inr body)
      then show ?thesis using assms ex False l
        by (cases "strip body = []") (simp_all add: ingest_document_def Let_def)
    qed
    then obtain body where b: "loaded = Inr body" "strip body \<noteq> []" by blast
    have "\<exists>i sd. store_document s (f_name f)
            (metadata_doc_type (extract_metadata_from_filename (f_name f))) org (f_size f)
            (extract_metadata_from_filename (f_name f)) = Inr (i, sd)"
    proof (cases "store_document s (f_name f)
            (metadata_doc_type (extract_metadata_from_filename (f_name f))) org (f_size f)
            (extract_metadata_from_filename (f_name f))")
      case (Inl e)
      have "ingest_document env f org s = (Inl e, s, [''Ingesting document: '' @ f_name f] @ out0)"
        using ex False l b Inl by (intro ingest_rejected) auto
      then show ?thesis using assms by simp
    next
      case (Inr p)
      then show ?thesis by (cases p) auto
    qed
    then show ?thesis using ex False l b by auto
  qed
qed

lemma ingest_True_exists:
  assumes "ingest_document env f org s = (Inr True, s1, out)"
  shows "f_exists f \<and> document_exists s1 (f_name f) (f_size f)"
proof -
  from ingest_result_cases [OF assms] have ex: "f_exists f" and
    cases: "(document_exists s (f_name f) (f_size f) \<and> s1 = s) \<or>
      (\<not> document_exists s (f_name f) (f_size f) \<and>
       (\<exists>body out0 i sd. load_text f = (Inr body, out0) \<and> strip body \<noteq> [] \<and>
          store_document s (f_name f)
            (metadata_doc_type (extract_metadata_from_filename (f_name f))) org (f_size f)
            (extract_metadata_from_filename (f_name f)) = Inr (i, sd)))"
    by auto
  from cases show ?thesis
  proof
    assume "document_exists s (f_name f) (f_size f) \<and> s1 = s"
    then show ?thesis using ex by simp
  next
    assume a: "\<not> document_exists s (f_name f) (f_size f) \<and>
       (\<exists>body out0 i sd. load_text f = (Inr body, out0) \<and> strip body \<noteq> [] \<and>
          store_document s (f_name f)
            (metadata_doc_type (extract_metadata_from_filename (f_name f))) org (f_size f)
            (extract_metadata_from_filename (f_name f)) = Inr (i, sd))"
    then obtain body out0 i sd where l: "load_text f = (Inr body, out0)" "strip body \<noteq> []"
      and sd: "store_document s (f_name f)
            (metadata_doc_type (extract_metadata_from_filename (f_name f))) org (f_size f)
            (extract_metadata_from_filename (f_name f)) = Inr (i, sd)"
      by auto
    from a have ne: "\<not> document_exists s (f_name f) (f_size f)" by simp
    have "document_exists sd (f_name f) (f_size f)"
      unfolding store_document_Inr(2) [OF sd] by (simp add: document_exists_def)
    moreover have "documents_table s1 = documents_table sd"
      using assms unfolding ingest_fresh [OF ex ne l sd] Let_def
      by (auto split: if_splits)
    ultimately have "document_exists s1 (f_name f) (f_size f)"
      by (simp add: document_exists_def)
    then show ?thesis using ex by simp
  qed
qed

lemma ingest_True_count:
  assumes "ingest_document env f org s = (Inr True, s1, out)"
    and ne: "\<not> document_exists s (f_name f) (f_size f)"
  shows "length (filter (\<lambda>d. d_filename d = f_name f \<and> d_file_size d = f_size f)
                  (documents_table s1)) = 1"
proof -
  from ingest_result_cases [OF assms(1)] ne obtain body out0 i sd where
    ex: "f_exists f" and l: "load_text f = (Inr body, out0)" "strip body \<noteq> []"
    and sd: "store_document s (f_name f)
            (metadata_doc_type (extract_metadata_from_filename (f_name f))) org (f_size f)
            (extract_metadata_from_filename (f_name f)) = Inr (i, sd)"
    by auto
  have none: "filter (\<lambda>d. d_filename d = f_name f \<and> d_file_size d = f_size f)
                  (documents_table s) = []"
    using ne by (auto simp: document_exists_def list_ex_iff filter_empty_conv)
  have "documents_table s1 = documents_table sd"
    using assms(1) unfolding ingest_fresh [OF ex ne l sd] Let_def
    by (auto split: if_splits)
  then show ?thesis
    using none unfolding store_document_Inr(2) [OF sd] by simp
qed

text \<open>
  What an ingestion writes, when it writes: one document of the next identity and chunks
  of that identity, numbered from zero. Both invariants hold of the empty store and are
  kept by every ingestion, whatever its outcome.
\<close>

lemma ingest_written:
  assumes ing: "ingest_document env f org s = (r, s1, out)" and changed: "s1 \<noteq> s"
  shows "\<exists>d new. documents_table s1 = documents_table s @ [d]
      \<and> d_id d = documents_id_seq s
      \<and> documents_id_seq s1 = Suc (documents_id_seq s)
      \<and> chunks_table s1 = chunks_table s @ new
      \<and> map c_chunk_index new = [0..<length new]
      \<and> list_all (\<lambda>c. c_doc_id c = documents_id_seq s) new"
proof -
  from ingest_store_cases [OF ing] changed obtain body out0 i sd where ex: "f_exists f"
    and ne: "\<not> document_exists s (f_name f) (f_size f)"
    and l: "load_text f = (Inr body, out0)" "strip body \<noteq> []"
    and sd: "store_document s (f_name f)
            (metadata_doc_type (extract_metadata_from_filename (f_name f))) org (f_size f)
            (extract_metadata_from_filename (f_name f)) = Inr (i, sd)"
    by auto
  define cs where "cs = split_text env body"
  define es where "es = fst (embed_loop env cs 0 [] [])"
  define m where "m = extract_metadata_from_filename (f_name f)"
  have i: "i = documents_id_seq s" by (rule store_document_Inr(1) [OF sd])
  have sd_docs: "\<exists>d. documents_table sd = documents_table s @ [d] \<and> d_id d = documents_id_seq s"
    and sd_chunks: "chunks_table sd = chunks_table s"
    and sd_seq: "documents_id_seq sd = Suc (documents_id_seq s)"
    unfolding store_document_Inr(2) [OF sd] by simp_all
  have cases: "s1 = sd \<or> (length es = length cs \<and>
      s1 = store_chunks env sd i cs es (make_chunk_metadata m (f_name f) cs))"
    using ing unfolding ingest_fresh [OF ex ne l sd] Let_def cs_def es_def m_def
    by (auto split: if_splits)
  have "\<exists>new. chunks_table s1 = chunks_table s @ new
      \<and> map c_chunk_index new = [0..<length new]
      \<and> list_all (\<lambda>c. c_doc_id c = i) new
      \<and> documents_table s1 = documents_table sd
      \<and> documents_id_seq s1 = documents_id_seq sd"
  proof -
    from cases show ?thesis
    proof
      assume "s1 = sd"
      then show ?thesis using sd_chunks by (intro exI [of _ "[]"]) simp
    next
      assume c: "length es = length cs \<and>
        s1 = store_chunks env sd i cs es (make_chunk_metadata m (f_name f) cs)"
      then have eq: "length es = length cs" by simp
      from store_chunks_rows [OF eq, of "make_chunk_metadata m (f_name f) cs" env sd i] c
      obtain new where new: "chunks_table s1 = chunks_table sd @ new"
        "map c_chunk_index new = [0..<length cs]"
        "list_all (\<lambda>c. c_doc_id c = i) new"
        by auto
      have "length (map c_chunk_index new) = length [0..<length cs]" using new(2) by simp
      then have "length new = length cs" by simp
      moreover have "documents_table s1 = documents_table sd"
        "documents_id_seq s1 = documents_id_seq sd"
        using c by (simp_all add: store_chunks_def)
      ultimately show ?thesis using new sd_chunks by auto
    qed
  qed
  then show ?thesis using sd_docs sd_seq i by auto
qed

lemma store_ok_ingest:
  assumes "store_ok s" "ingest_document env f org s = (r, s1, out)"
  shows "store_ok s1"
proof (cases "s1 = s")
  case True
  then show ?thesis using assms(1) by simp
next
  case False
  from ingest_written [OF assms(2) False] obtain d new where
    w: "documents_table s1 = documents_table s @ [d]" "d_id d = documents_id_seq s"
      "documents_id_seq s1 = Suc (documents_id_seq s)"
      "chunks_table s1 = chunks_table s @ new"
      "list_all (\<lambda>c. c_doc_id c = documents_id_seq s) new"
    by blast
  show ?thesis
    using assms(1) w by (auto simp: store_ok_def list_all_iff less_Suc_eq)
qed

lemma store_ok_empty: "store_ok empty_store"
  by (simp add: store_ok_def empty_store_def)

lemma contiguous_store_ingest:
  assumes ok: "store_ok s" and inv: "contiguous_store s"
    and ing: "ingest_document env f org s = (r, s1, out)"
  shows "contiguous_store s1"
proof (cases "s1 = s")
  case True
  then show ?thesis using inv by simp
next
  case False
  define i where "i = documents_id_seq s"
  from ingest_written [OF ing False] obtain d0 new where
    w: "documents_table s1 = documents_table s @ [d0]" "d_id d0 = i"
      "chunks_table s1 = chunks_table s @ new"
      "map c_chunk_index new = [0..<length new]"
      "list_all (\<lambda>c. c_doc_id c = i) new"
    unfolding i_def by blast
  have fresh: "document_chunks s i = []"
    using store_ok_fresh [OF ok] by (simp add: document_chunks_def i_def)
  have new_doc: "document_chunks s1 i = new"
    using fresh w(3,5) by (simp add: document_chunks_def list_all_iff)
  have old_doc: "document_chunks s1 j = document_chunks s j" if "j \<noteq> i" for j
  proof -
    have "filter (\<lambda>c. c_doc_id c = j) new = []"
      using w(5) that by (auto simp: list_all_iff filter_empty_conv)
    then show ?thesis using w(3) by (simp add: document_chunks_def)
  qed
  have old_ids: "d_id d \<noteq> i" if "d \<in> set (documents_table s)" for d
    using ok that by (auto simp: store_ok_def list_all_iff i_def)
  show ?thesis
    unfolding contiguous_store_def w(1)
    using inv old_doc old_ids new_doc w(4) w(2)
    by (auto simp: contiguous_store_def list_all_iff)
qed

lemma contiguous_store_empty: "contiguous_store empty_store"
  by (simp add: contiguous_store_def empty_store_def)

text \<open>
  A document row that the store rejects: the error leaves \<open>ingest_document\<close> and nothing
  is written.
\<close>

lemma ingest_document_rejected_row:
  assumes "f_exists f" "\<not> document_exists s (f_name f) (f_size f)"
    and "load_text f = (Inr body, out0)" "strip body \<noteq> []"
    and "document_row_error (f_name f)
           (metadata_doc_type (extract_metadata_from_filename (f_name f))) org (f_size f)
         = Some msg"
  shows "ingest_document env f org s
     = (Inl (DataError msg), s, [''Ingesting document: '' @ f_name f] @ out0)"
proof -
  have "store_document s (f_name f)
           (metadata_doc_type (extract_metadata_from_filename (f_name f))) org (f_size f)
           (extract_metadata_from_filename (f_name f)) = Inl (DataError msg)"
    using assms(5) by (simp add: store_document_def)
  then show ?thesis by (rule ingest_rejected [OF assms(1-4)])
qed

text \<open>
  C3. When the file exists and a document with its filename and size is already stored,
  \<open>ingest_document\<close> returns \<open>True\<close>, leaves the store as it is and prints the skip line
  only. So after an ingestion that returned \<open>True\<close>, ingesting the same file again (with
  any embeddings endpoint and any organization) is such a skip; and when the file was not
  stored before, the store then holds exactly one document of that filename and size.
\<close>

theorem ingest_document_idempotent:
  assumes "f_exists f"
  shows "(document_exists s (f_name f) (f_size f) \<longrightarrow>
            ingest_document env f org s =
              (Inr True, s, [''Document '' @ f_name f @ '' already exists in database, skipping...'']))
     \<and> (ingest_document env f org s = (Inr True, s1, out) \<longrightarrow>
            ingest_document env2 f org2 s1 =
              (Inr True, s1, [''Document '' @ f_name f @ '' already exists in database, skipping...'']))
     \<and> (\<not> document_exists s (f_name f) (f_size f)
          \<and> ingest_document env f org s = (Inr True, s1, out) \<longrightarrow>
            length (filter (\<lambda>d. d_filename d = f_name f \<and> d_file_size d = f_size f)
                      (documents_table s1)) = 1)"
proof (intro conjI impI)
  assume "document_exists s (f_name f) (f_size f)"
  then show "ingest_document env f org s =
      (Inr True, s, [''Document '' @ f_name f @ '' already exists in database, skipping...''])"
    using assms by (rule ingest_skip [rotated])
next
  assume "ingest_document env f org s = (Inr True, s1, out)"
  then have "document_exists s1 (f_name f) (f_size f)"
    using ingest_True_exists by blast
  then show "ingest_document env2 f org2 s1 =
      (Inr True, s1, [''Document '' @ f_name f @ '' already exists in database, skipping...''])"
    using assms by (rule ingest_skip [rotated])
next
  assume "\<not> document_exists s (f_name f) (f_size f)
          \<and> ingest_document env f org s = (Inr True, s1, out)"
  then show "length (filter (\<lambda>d. d_filename d = f_name f \<and> d_file_size d = f_size f)
                      (documents_table s1)) = 1"
    using ingest_True_count by blast
qed

theorem ingest_document_idempotent_witness:
  "f_exists report_file
   \<and> \<not> document_exists empty_store (f_name report_file) (f_size report_file)
   \<and> ingest_document working_ingest_env report_file None empty_store =
        (Inr True, report_store,
         [''Ingesting document: baltic_seagrass_report.txt'',
          ''Created 2 chunks from baltic_seagrass_report.txt'',
          ''Created embeddings for chunks 1-2'',
          ''Successfully ingested baltic_seagrass_report.txt with 2 chunks''])
   \<and> document_exists report_store (f_name report_file) (f_size report_file)
   \<and> ingest_document failing_ingest_env report_file (Some ''Acme'') report_store =
        (Inr True, report_store,
         [''Document baltic_seagrass_report.txt already exists in database, skipping...''])
   \<and> length (filter (\<lambda>d. d_filename d = f_name report_file \<and> d_file_size d = f_size report_file)
                (documents_table report_store)) = 1"
proof -
  have e: "f_exists report_file" by (simp add: report_file_def)
  have n: "\<not> document_exists empty_store (f_name report_file) (f_size report_file)"
    by code_simp
  have i: "ingest_document working_ingest_env report_file None empty_store =
        (Inr True, report_store,
         [''Ingesting document: baltic_seagrass_report.txt'',
          ''Created 2 chunks from baltic_seagrass_report.txt'',
          ''Created embeddings for chunks 1-2'',
          ''Successfully ingested baltic_seagrass_report.txt with 2 chunks''])"
    by code_simp
  have d: "document_exists report_store (f_name report_file) (f_size report_file)"
    by code_simp
  have m: "''Document '' @ f_name report_file @ '' already exists in database, skipping...''
      = ''Document baltic_seagrass_report.txt already exists in database, skipping...''"
    by (simp add: report_file_def)
  from ingest_document_idempotent [OF e, of empty_store working_ingest_env None report_store _
      failing_ingest_env "Some ''Acme''"] i n
  have again: "ingest_document failing_ingest_env report_file (Some ''Acme'') report_store =
      (Inr True, report_store,
       [''Document '' @ f_name report_file @ '' already exists in database, skipping...''])"
    and one: "length (filter (\<lambda>d. d_filename d = f_name report_file \<and> d_file_size d = f_size report_file)
                (documents_table report_store)) = 1"
    by blast+
  show ?thesis using e n i d again one unfolding m by blast
qed

text \<open>
  C4. When the file exists, is not stored yet, has text and a document row that the store
  accepts, and the embeddings collected over the batches are not as many as the chunks,
  \<open>ingest_document\<close> returns \<open>False\<close> and its last printed line is the mismatch error; the
  chunks table is as before, and the documents table has the new document appended, to
  which (in a store that satisfies \<open>store_ok\<close>) no chunk refers. (Where the store rejects
  the row, as for an organization of 256 characters or a file of 2147483648 bytes, the
  error of the store leaves \<open>ingest_document\<close> before any embedding is asked for.)
\<close>

theorem embedding_count_mismatch_fails:
  assumes "f_exists f" "\<not> document_exists s (f_name f) (f_size f)"
    and "store_accepts_document f org"
    and "load_text f = (Inr body, out0)" "strip body \<noteq> []"
    and "length (fst (embed_loop env (split_text env body) 0 [] [])) \<noteq> length (split_text env body)"
  shows "\<exists>s1 out d. ingest_document env f org s = (Inr False, s1, out)
      \<and> last out = ''Error: Embedding count mismatch. Expected ''
                     @ str_nat (length (split_text env body)) @ '', got ''
                     @ str_nat (length (fst (embed_loop env (split_text env body) 0 [] [])))
      \<and> chunks_table s1 = chunks_table s
      \<and> documents_table s1 = documents_table s @ [d]
      \<and> d_id d = documents_id_seq s \<and> d_filename d = f_name f \<and> d_file_size d = f_size f
      \<and> (store_ok s \<longrightarrow> \<not> list_ex (\<lambda>c. c_doc_id c = d_id d) (chunks_table s1))"
proof -
  have "document_row_error (f_name f)
      (metadata_doc_type (extract_metadata_from_filename (f_name f))) org (f_size f) = None"
    using assms(3) by (rule store_accepts_no_error)
  from store_document_accepted [OF this] obtain sd where
    sd: "store_document s (f_name f)
           (metadata_doc_type (extract_metadata_from_filename (f_name f))) org (f_size f)
           (extract_metadata_from_filename (f_name f)) = Inr (documents_id_seq s, sd)"
    by blast
  have "store_ok s \<Longrightarrow> \<not> list_ex (\<lambda>c. c_doc_id c = documents_id_seq s) (chunks_table s)"
    by (auto simp: store_ok_def list_all_iff list_ex_iff)
  then show ?thesis
    unfolding ingest_fresh [OF assms(1,2,4,5) sd] Let_def store_document_Inr(2) [OF sd]
    using assms(6) by simp
qed

theorem embedding_count_mismatch_fails_witness:
  "f_exists report_file
   \<and> \<not> document_exists empty_store (f_name report_file) (f_size report_file)
   \<and> store_accepts_document report_file None
   \<and> load_text report_file = (Inr ''hello world!'', [])
   \<and> strip ''hello world!'' \<noteq> []
   \<and> length (fst (embed_loop failing_ingest_env
                  (split_text failing_ingest_env ''hello world!'') 0 [] []))
       \<noteq> length (split_text failing_ingest_env ''hello world!'')
   \<and> store_ok empty_store
   \<and> (\<exists>s1 out d. ingest_document failing_ingest_env report_file None empty_store = (Inr False, s1, out)
        \<and> last out = ''Error: Embedding count mismatch. Expected 2, got 0''
        \<and> chunks_table s1 = []
        \<and> documents_table s1 = [d]
        \<and> d_id d = 1 \<and> d_filename d = ''baltic_seagrass_report.txt'' \<and> d_file_size d = 12
        \<and> \<not> list_ex (\<lambda>c. c_doc_id c = d_id d) (chunks_table s1))
   \<and> \<not> store_accepts_document report_file (Some (replicate 256 (CHR ''x'')))
   \<and> ingest_document failing_ingest_env report_file (Some (replicate 256 (CHR ''x''))) empty_store
       = (Inl (DataError ''value too long for type character varying(255)''), empty_store,
          [''Ingesting document: baltic_seagrass_report.txt''])
   \<and> document_row_error ''baltic_seagrass_report.txt'' ''unknown'' None 2147483648
       = Some ''integer out of range''"
proof -
  have x: "\<not> store_accepts_document report_file (Some (replicate 256 (CHR ''x'')))"
    by (simp add: store_accepts_document_def)
  have y: "ingest_document failing_ingest_env report_file (Some (replicate 256 (CHR ''x''))) empty_store
       = (Inl (DataError ''value too long for type character varying(255)''), empty_store,
          [''Ingesting document: baltic_seagrass_report.txt''])"
    by code_simp
  have z: "document_row_error ''baltic_seagrass_report.txt'' ''unknown'' None 2147483648
       = Some ''integer out of range''"
    by (simp add: document_row_error_def)
  have e: "f_exists report_file" by (simp add: report_file_def)
  have n: "\<not> document_exists empty_store (f_name report_file) (f_size report_file)"
    by code_simp
  have a: "store_accepts_document report_file None"
    by (simp add: store_accepts_document_def report_file_def)
  have l: "load_text report_file = (Inr ''hello world!'', [])" by code_simp
  have t: "strip ''hello world!'' \<noteq> []" by code_simp
  have c: "length (fst (embed_loop failing_ingest_env
                  (split_text failing_ingest_env ''hello world!'') 0 [] []))
       \<noteq> length (split_text failing_ingest_env ''hello world!'')"
    by code_simp
  have k: "store_ok empty_store" by (simp add: store_ok_def empty_store_def)
  have m: "''Error: Embedding count mismatch. Expected ''
                     @ str_nat (length (split_text failing_ingest_env ''hello world!'')) @ '', got ''
                     @ str_nat (length (fst (embed_loop failing_ingest_env
                          (split_text failing_ingest_env ''hello world!'') 0 [] [])))
      = ''Error: Embedding count mismatch. Expected 2, got 0''"
    by code_simp
  have v: "chunks_table empty_store = []" "documents_table empty_store = []"
    "documents_id_seq empty_store = 1" "f_name report_file = ''baltic_seagrass_report.txt''"
    "f_size report_file = 12"
    by (simp_all add: empty_store_def report_file_def)
  from embedding_count_mismatch_fails [OF e n a l t c] k
  obtain s1 out d where r:
    "ingest_document failing_ingest_env report_file None empty_store = (Inr False, s1, out)"
    "last out = ''Error: Embedding count mismatch. Expected ''
                     @ str_nat (length (split_text failing_ingest_env ''hello world!'')) @ '', got ''
                     @ str_nat (length (fst (embed_loop failing_ingest_env
                          (split_text failing_ingest_env ''hello world!'') 0 [] [])))"
    "chunks_table s1 = chunks_table empty_store"
    "documents_table s1 = documents_table empty_store @ [d]"
    "d_id d = documents_id_seq empty_store" "d_filename d = f_name report_file"
    "d_file_size d = f_size report_file"
    "\<not> list_ex (\<lambda>c. c_doc_id c = d_id d) (chunks_table s1)"
    by blast
  have "ingest_document failing_ingest_env report_file None empty_store = (Inr False, s1, out)
        \<and> last out = ''Error: Embedding count mismatch. Expected 2, got 0''
        \<and> chunks_table s1 = []
        \<and> documents_table s1 = [d]
        \<and> d_id d = 1 \<and> d_filename d = ''baltic_seagrass_report.txt'' \<and> d_file_size d = 12
        \<and> \<not> list_ex (\<lambda>c. c_doc_id c = d_id d) (chunks_table s1)"
    using r unfolding m v by simp
  then show ?thesis using e n a l t c k x y z by blast
qed

text \<open>
  C8. When \<open>ingest_document\<close> returns \<open>True\<close> for a file that was not stored before, in a
  store that satisfies \<open>store_ok\<close>, the text of the file was split into chunks and the
  chunks table holds, for the identity given to the new document, rows whose
  \<open>chunk_index\<close> values are \<open>0, ..., N - 1\<close> in this order (\<open>N\<close> the number of chunks) and
  whose contents are the chunks in the order of the split.
\<close>

theorem chunk_index_contiguous:
  assumes "store_ok s" "\<not> document_exists s (f_name f) (f_size f)"
    and "ingest_document env f org s = (Inr True, s1, out)"
  shows "\<exists>body out0 d. load_text f = (Inr body, out0) \<and>
      map c_chunk_index (filter (\<lambda>c. c_doc_id c = documents_id_seq s) (chunks_table s1))
        = [0..<length (split_text env body)] \<and>
      map c_content (filter (\<lambda>c. c_doc_id c = documents_id_seq s) (chunks_table s1))
        = split_text env body \<and>
      documents_table s1 = documents_table s @ [d] \<and> d_id d = documents_id_seq s"
proof -
  from ingest_result_cases [OF assms(3)] assms(2) obtain body out0 i sd where
    ex: "f_exists f" and l: "load_text f = (Inr body, out0)" "strip body \<noteq> []"
    and sd: "store_document s (f_name f)
            (metadata_doc_type (extract_metadata_from_filename (f_name f))) org (f_size f)
            (extract_metadata_from_filename (f_name f)) = Inr (i, sd)"
    by auto
  define cs where "cs = split_text env body"
  define es where "es = fst (embed_loop env cs 0 [] [])"
  define m where "m = extract_metadata_from_filename (f_name f)"
  have i: "i = documents_id_seq s" by (rule store_document_Inr(1) [OF sd])
  have eq: "length es = length cs"
    and s1: "s1 = store_chunks env sd i cs es (make_chunk_metadata m (f_name f) cs)"
    using assms(3) unfolding ingest_fresh [OF ex assms(2) l sd] Let_def cs_def es_def m_def
    by (auto split: if_splits)
  from store_chunks_rows [OF eq, of "make_chunk_metadata m (f_name f) cs" env sd i]
  obtain new where new: "chunks_table s1 = chunks_table sd @ new"
     "map c_chunk_index new = [0..<length cs]" "map c_content new = cs"
     "list_all (\<lambda>c. c_doc_id c = documents_id_seq s) new"
    unfolding s1 i by auto
  have sdc: "chunks_table sd = chunks_table s"
    unfolding store_document_Inr(2) [OF sd] by simp
  have "filter (\<lambda>c. c_doc_id c = documents_id_seq s) (chunks_table s1) = new"
    using new(1,4) store_ok_fresh [OF assms(1)] sdc
    by (simp add: list_all_iff)
  moreover have "\<exists>d. documents_table s1 = documents_table s @ [d] \<and> d_id d = documents_id_seq s"
    unfolding s1 store_chunks_documents store_document_Inr(2) [OF sd] by simp
  ultimately show ?thesis using l(1) new(2,3) cs_def by auto
qed

theorem chunk_index_contiguous_witness:
  "store_ok empty_store
   \<and> \<not> document_exists empty_store (f_name report_file) (f_size report_file)
   \<and> ingest_document working_ingest_env report_file None empty_store =
        (Inr True, report_store,
         [''Ingesting document: baltic_seagrass_report.txt'',
          ''Created 2 chunks from baltic_seagrass_report.txt'',
          ''Created embeddings for chunks 1-2'',
          ''Successfully ingested baltic_seagrass_report.txt with 2 chunks''])
   \<and> map c_chunk_index (filter (\<lambda>c. c_doc_id c = 1) (chunks_table report_store)) = [0, 1]
   \<and> map c_content (filter (\<lambda>c. c_doc_id c = 1) (chunks_table report_store))
       = [''hello '', ''world!'']"
proof -
  have k: "store_ok empty_store" by (simp add: store_ok_def empty_store_def)
  have n: "\<not> document_exists empty_store (f_name report_file) (f_size report_file)"
    by code_simp
  have i: "ingest_document working_ingest_env report_file None empty_store =
        (Inr True, report_store,
         [''Ingesting document: baltic_seagrass_report.txt'',
          ''Created 2 chunks from baltic_seagrass_report.txt'',
          ''Created embeddings for chunks 1-2'',
          ''Successfully ingested baltic_seagrass_report.txt with 2 chunks''])"
    by code_simp
  have l: "load_text report_file = (Inr ''hello world!'', [])" by code_simp
  have c: "split_text working_ingest_env ''hello world!'' = [''hello '', ''world!'']"
    by (simp add: working_ingest_env_def)
  have q: "documents_id_seq empty_store = 1" by (simp add: empty_store_def)
  from chunk_index_contiguous [OF k n i] obtain body out0 where r:
    "load_text report_file = (Inr body, out0)"
    "map c_chunk_index (filter (\<lambda>c. c_doc_id c = documents_id_seq empty_store)
        (chunks_table report_store)) = [0..<length (split_text working_ingest_env body)]"
    "map c_content (filter (\<lambda>c. c_doc_id c = documents_id_seq empty_store)
        (chunks_table report_store)) = split_text working_ingest_env body"
    by blast
  have b: "body = ''hello world!''" using r(1) l by simp
  have "map c_chunk_index (filter (\<lambda>c. c_doc_id c = 1) (chunks_table report_store)) = [0, 1]"
    using r(2) unfolding b c q by (simp add: upt_rec)
  moreover have "map c_content (filter (\<lambda>c. c_doc_id c = 1) (chunks_table report_store))
       = [''hello '', ''world!'']"
    using r(3) unfolding b c q by simp
  ultimately show ?thesis using k n i by blast
qed

section \<open>Properties of the similarity search\<close>

lemma score_row_result [simp]:
  "similarity_score (row_result env q row) = row_score env q row"
  by (simp add: row_result_def Let_def)

lemma execute_full_query_ranked:
  assumes "execute_full_query env s q limit = Inr rows"
  shows "sorted (map (\<lambda>row. desc_key (row_score env q row)) rows)"
    and "0 \<le> limit" and "int (length rows) \<le> limit"
proof -
  let ?f = "\<lambda>row. desc_key (row_score env q row)"
  have rows: "rows = take (nat limit) (sort_key ?f (joined_rows s))" and l: "0 \<le> limit"
    using assms by (auto simp: execute_full_query_def split: if_splits option.splits)
  have "sorted (map ?f (sort_key ?f (joined_rows s)))"
    by (rule sorted_sort_key)
  then have "sorted (take (nat limit) (map ?f (sort_key ?f (joined_rows s))))"
    by (rule sorted_wrt_take)
  then show "sorted (map ?f rows)"
    by (simp add: rows take_map)
  show "0 \<le> limit" by (rule l)
  show "int (length rows) \<le> limit"
    using l by (simp add: rows)
qed

lemma search_cases:
  assumes "search_similar_chunks env s q limit t f1 f2 f3 = Inr rs"
  shows "rs = [] \<or> (\<exists>rows. execute_full_query env s q limit = Inr rows
              \<and> rs = map (row_result env q) rows)"
  using assms
  by (auto simp: search_similar_chunks_def split: option.splits sum.splits)

lemma desc_key_py_ge:
  "a \<noteq> NaN \<Longrightarrow> b \<noteq> NaN \<Longrightarrow> desc_key a \<le> desc_key b \<Longrightarrow> py_ge a b"
  by (cases a; cases b) (simp_all add: desc_key_def py_ge_def)

text \<open>
  C5. The results of a search that returns are in the descending order of the store, in
  which NaN comes first; for a limit that is not negative they are at most \<open>limit\<close> many,
  and for a negative limit there are none. When no returned score is NaN, each result has
  a score \<open>>=\<close> that of the next.
\<close>

theorem search_results_ranked:
  assumes "search_similar_chunks env s q limit t f1 f2 f3 = Inr rs"
  shows "sorted (map (\<lambda>r. desc_key (similarity_score r)) rs)
     \<and> (0 \<le> limit \<longrightarrow> int (length rs) \<le> limit)
     \<and> (limit < 0 \<longrightarrow> rs = [])
     \<and> (list_all (\<lambda>r. similarity_score r \<noteq> NaN) rs \<longrightarrow>
          (\<forall>i. Suc i < length rs \<longrightarrow>
             py_ge (similarity_score (rs ! i)) (similarity_score (rs ! Suc i))))"
proof -
  have z: "limit < 0 \<longrightarrow> rs = []"
    using search_cases [OF assms] execute_full_query_ranked(2) [of env s q limit] by auto
  have s: "sorted (map (\<lambda>r. desc_key (similarity_score r)) rs)"
    and n: "0 \<le> limit \<longrightarrow> int (length rs) \<le> limit"
  proof -
    from search_cases [OF assms]
    show "sorted (map (\<lambda>r. desc_key (similarity_score r)) rs)"
    proof
      assume "rs = []" then show ?thesis by simp
    next
      assume "\<exists>rows. execute_full_query env s q limit = Inr rows \<and> rs = map (row_result env q) rows"
      then obtain rows where r: "execute_full_query env s q limit = Inr rows"
         "rs = map (row_result env q) rows" by blast
      show ?thesis
        using execute_full_query_ranked(1) [OF r(1)]
        by (simp add: r(2) comp_def)
    qed
    from search_cases [OF assms]
    show "0 \<le> limit \<longrightarrow> int (length rs) \<le> limit"
    proof
      assume "rs = []" then show ?thesis by simp
    next
      assume "\<exists>rows. execute_full_query env s q limit = Inr rows \<and> rs = map (row_result env q) rows"
      then obtain rows where r: "execute_full_query env s q limit = Inr rows"
         "rs = map (row_result env q) rows" by blast
      show ?thesis
        using execute_full_query_ranked(3) [OF r(1)] by (simp add: r(2))
    qed
  qed
  have p: "list_all (\<lambda>r. similarity_score r \<noteq> NaN) rs \<longrightarrow>
          (\<forall>i. Suc i < length rs \<longrightarrow>
             py_ge (similarity_score (rs ! i)) (similarity_score (rs ! Suc i)))"
  proof (intro impI allI)
    fix i assume nn: "list_all (\<lambda>r. similarity_score r \<noteq> NaN) rs" and i: "Suc i < length rs"
    have k: "desc_key (similarity_score (rs ! i)) \<le> desc_key (similarity_score (rs ! Suc i))"
      using sorted_nth_mono [OF s, of i "Suc i"] i by simp
    have "similarity_score (rs ! i) \<noteq> NaN" "similarity_score (rs ! Suc i) \<noteq> NaN"
      using nn i by (simp_all add: list_all_length)
    then show "py_ge (similarity_score (rs ! i)) (similarity_score (rs ! Suc i))"
      using k by (rule desc_key_py_ge)
  qed
  show ?thesis using s n z p by blast
qed

theorem search_results_ranked_witness:
  "search_similar_chunks working_retriever_env annual_store [1, 0] 5 0 None None None
     = Inr [outlook_result, revenue_result]
   \<and> list_all (\<lambda>r. similarity_score r \<noteq> NaN) [outlook_result, revenue_result]
   \<and> py_ge (similarity_score outlook_result) (similarity_score revenue_result)
   \<and> int (length [outlook_result, revenue_result]) \<le> 5
   \<and> search_similar_chunks working_retriever_env annual_store [1, 0] 1 0 None None None
     = Inr [outlook_result]
   \<and> int (length [outlook_result]) \<le> 1"
proof -
  have h: "search_similar_chunks working_retriever_env annual_store [1, 0] 5 0 None None None
     = Inr [outlook_result, revenue_result]"
    by code_simp
  have h1: "search_similar_chunks working_retriever_env annual_store [1, 0] 1 0 None None None
     = Inr [outlook_result]"
    by code_simp
  have nn: "list_all (\<lambda>r. similarity_score r \<noteq> NaN) [outlook_result, revenue_result]"
    by (simp add: outlook_result_def revenue_result_def)
  from search_results_ranked [OF h] nn
  have a: "\<forall>i. Suc i < length [outlook_result, revenue_result] \<longrightarrow>
      py_ge (similarity_score ([outlook_result, revenue_result] ! i))
        (similarity_score ([outlook_result, revenue_result] ! Suc i))"
    and b: "(0::int) \<le> 5 \<longrightarrow> int (length [outlook_result, revenue_result]) \<le> 5"
    by blast+
  from a have "Suc 0 < length [outlook_result, revenue_result] \<longrightarrow>
      py_ge (similarity_score ([outlook_result, revenue_result] ! 0))
        (similarity_score ([outlook_result, revenue_result] ! Suc 0))"
    by (rule spec)
  then have c: "py_ge (similarity_score outlook_result) (similarity_score revenue_result)"
    by simp
  from search_results_ranked [OF h1]
  have d: "(0::int) \<le> 1 \<longrightarrow> int (length [outlook_result]) \<le> 1" by blast
  show ?thesis using h h1 nn b c d by simp
qed

text \<open>
  The claim as first stated fails on these inputs. With a zero vector stored for a chunk,
  that chunk has the score NaN and comes first, and its score is not \<open>>=\<close> the next; with
  the zero vector as query every score is NaN. With the limit \<open>-1\<close> the store rejects the
  query, the search returns the empty list, and its length exceeds the limit.
\<close>

theorem search_ranking_counterexample:
  "search_similar_chunks working_retriever_env zero_vector_store [1, 0] 5 0 None None None
     = Inr [revenue_nan_result, outlook_result]
   \<and> \<not> py_ge (similarity_score revenue_nan_result) (similarity_score outlook_result)
   \<and> search_similar_chunks working_retriever_env annual_store [0, 0] 5 0 None None None
     = Inr [revenue_nan_result, outlook_nan_result]
   \<and> \<not> py_ge (similarity_score revenue_nan_result) (similarity_score outlook_nan_result)
   \<and> search_similar_chunks working_retriever_env annual_store [1, 0] (- 1) 0 None None None
     = Inr []
   \<and> \<not> int (length ([] :: SearchResult list)) \<le> - 1"
proof (intro conjI)
  show "search_similar_chunks working_retriever_env zero_vector_store [1, 0] 5 0 None None None
     = Inr [revenue_nan_result, outlook_result]"
    by code_simp
  show "\<not> py_ge (similarity_score revenue_nan_result) (similarity_score outlook_result)"
    by (simp add: revenue_nan_result_def py_ge_def)
  show "search_similar_chunks working_retriever_env annual_store [0, 0] 5 0 None None None
     = Inr [revenue_nan_result, outlook_nan_result]"
    by code_simp
  show "\<not> py_ge (similarity_score revenue_nan_result) (similarity_score outlook_nan_result)"
    by (simp add: revenue_nan_result_def outlook_nan_result_def py_ge_def)
  show "search_similar_chunks working_retriever_env annual_store [1, 0] (- 1) 0 None None None
     = Inr []"
    by code_simp
  show "\<not> int (length ([] :: SearchResult list)) \<le> - 1"
    by simp
qed

text \<open>
  C1. The ranking query has no predicate for the filters: a search for the document type
  \<open>sustainability_report\<close> in a store whose only document is a \<open>company_report\<close> returns
  both chunks of that document, neither of which satisfies the filter. The arguments are
  documented as filters (\<open>doc_type_filter: Filter by document type\<close>) and \<open>query\<close> reports
  them as \<open>filters_applied\<close>.
\<close>

theorem search_ignores_filters:
  "search_similar_chunks working_retriever_env annual_store [1, 0] 5 0
       (Some ''sustainability_report'') None None = Inr [outlook_result, revenue_result]
   \<and> \<not> matches_filters (Some ''sustainability_report'') None None outlook_result
   \<and> \<not> matches_filters (Some ''sustainability_report'') None None revenue_result"
proof (intro conjI)
  show "search_similar_chunks working_retriever_env annual_store [1, 0] 5 0
       (Some ''sustainability_report'') None None = Inr [outlook_result, revenue_result]"
    by code_simp
  show "\<not> matches_filters (Some ''sustainability_report'') None None outlook_result"
    by (simp add: matches_filters_def outlook_result_def)
  show "\<not> matches_filters (Some ''sustainability_report'') None None revenue_result"
    by (simp add: matches_filters_def revenue_result_def)
qed

text \<open>
  C9. Two searches that differ in the similarity threshold only return the same: the
  threshold takes no part in the ranking query. So a result below the threshold is
  returned, as the chunk of score \<open>0\<close> is for the threshold \<open>0.9\<close>.
\<close>

theorem similarity_threshold_has_no_effect:
  "search_similar_chunks env s q limit t1 f1 f2 f3 = search_similar_chunks env s q limit t2 f1 f2 f3
   \<and> search_similar_chunks working_retriever_env annual_store [1, 0] 5 (9 / 10) None None None
       = Inr [outlook_result, revenue_result]
   \<and> similarity_score revenue_result = Num 0
   \<and> \<not> py_ge (similarity_score revenue_result) (Num (9 / 10))"
proof (intro conjI)
  show "search_similar_chunks env s q limit t1 f1 f2 f3 = search_similar_chunks env s q limit t2 f1 f2 f3"
    by (simp add: search_similar_chunks_def)
  show "search_similar_chunks working_retriever_env annual_store [1, 0] 5 (9 / 10) None None None
       = Inr [outlook_result, revenue_result]"
    by code_simp
  show "similarity_score revenue_result = Num 0"
    by (simp add: revenue_result_def)
  show "\<not> py_ge (similarity_score revenue_result) (Num (9 / 10))"
    by (simp add: revenue_result_def py_ge_def)
qed

section \<open>Properties of the context assembly\<close>

lemma estimated_tokens_nonneg: "0 \<le> estimated_tokens b"
  by (simp add: estimated_tokens_def)

lemma cumulative_cost_nonneg: "0 \<le> cumulative_cost bs"
  unfolding cumulative_cost_def
  by (induction bs) simp_all

lemma cumulative_cost_Cons [simp]:
  "cumulative_cost (b # bs) = estimated_tokens b + cumulative_cost bs"
  by (simp add: cumulative_cost_def estimated_tokens_def)

lemma cumulative_cost_Nil [simp]: "cumulative_cost [] = 0"
  by (simp add: cumulative_cost_def)

lemma context_loop_acc:
  "context_loop rs B parts acc = parts @ context_loop rs (B - acc) [] 0"
proof (induction rs arbitrary: parts acc B)
  case Nil
  then show ?case by simp
next
  case (Cons r rs)
  define b where "b = content_with_source r"
  define t where "t = estimated_tokens b"
  show ?case
  proof (cases "acc + t > B")
    case True
    then show ?thesis by (simp add: b_def t_def Let_def)
  next
    case False
    have l: "context_loop (r # rs) B parts acc = context_loop rs B (parts @ [b]) (acc + t)"
      using False by (simp add: b_def t_def Let_def)
    have r: "context_loop (r # rs) (B - acc) [] 0 = context_loop rs (B - acc) [b] t"
      using False by (simp add: b_def t_def Let_def)
    have d: "B - acc - t = B - (acc + t)" by simp
    have "context_loop (r # rs) B parts acc = context_loop rs B (parts @ [b]) (acc + t)"
      by (rule l)
    also have "\<dots> = (parts @ [b]) @ context_loop rs (B - (acc + t)) [] 0"
      by (rule Cons.IH)
    also have "\<dots> = parts @ ([b] @ context_loop rs (B - acc - t) [] 0)"
      by (simp only: d append_assoc)
    also have "[b] @ context_loop rs (B - acc - t) [] 0 = context_loop rs (B - acc) [b] t"
      by (rule Cons.IH [symmetric])
    also have "\<dots> = context_loop (r # rs) (B - acc) [] 0"
      by (rule r [symmetric])
    finally show ?thesis .
  qed
qed


lemma context_loop_prefix:
  "\<exists>k \<le> length rs.
     context_loop rs B [] 0 = take k (map content_with_source rs)
     \<and> cumulative_cost (take k (map content_with_source rs)) \<le> max 0 B
     \<and> (\<forall>j \<le> length rs. cumulative_cost (take j (map content_with_source rs)) \<le> B \<longrightarrow> j \<le> k)
     \<and> (k < length rs \<longrightarrow> B < cumulative_cost (take (Suc k) (map content_with_source rs)))"
proof (induction rs arbitrary: B)
  case Nil
  then show ?case by simp
next
  case (Cons r rs)
  define b where "b = content_with_source r"
  define t where "t = estimated_tokens b"
  have t0: "0 \<le> t" by (simp add: t_def estimated_tokens_nonneg)
  show ?case
  proof (cases "t > B")
    case True
    have e: "context_loop (r # rs) B [] 0 = []"
      using True by (simp add: b_def t_def Let_def)
    have m: "\<forall>j \<le> length (r # rs). cumulative_cost (take j (map content_with_source (r # rs))) \<le> B \<longrightarrow> j \<le> 0"
    proof (intro allI impI)
      fix j assume "j \<le> length (r # rs)"
        and c: "cumulative_cost (take j (map content_with_source (r # rs))) \<le> B"
      show "j \<le> 0"
      proof (cases j)
        case 0
        then show ?thesis by simp
      next
        case (Suc j')
        have "0 \<le> cumulative_cost (take j' (map content_with_source rs))"
          by (rule cumulative_cost_nonneg)
        moreover have "cumulative_cost (take j (map content_with_source (r # rs)))
            = t + cumulative_cost (take j' (map content_with_source rs))"
          using Suc by (simp add: b_def t_def)
        ultimately show ?thesis using c True by linarith
      qed
    qed
    have x: "B < cumulative_cost (take (Suc 0) (map content_with_source (r # rs)))"
      using True by (simp add: b_def t_def)
    show ?thesis
    proof (rule exI [of _ 0], intro conjI)
      show "0 \<le> length (r # rs)" by simp
      show "context_loop (r # rs) B [] 0 = take 0 (map content_with_source (r # rs))"
        using e by simp
      show "cumulative_cost (take 0 (map content_with_source (r # rs))) \<le> max 0 B" by simp
      show "\<forall>j \<le> length (r # rs). cumulative_cost (take j (map content_with_source (r # rs))) \<le> B \<longrightarrow> j \<le> 0"
        by (rule m)
      show "0 < length (r # rs) \<longrightarrow> B < cumulative_cost (take (Suc 0) (map content_with_source (r # rs)))"
        using x by simp
    qed
  next
    case False
    have l: "context_loop (r # rs) B [] 0 = b # context_loop rs (B - t) [] 0"
      using False context_loop_acc [of rs B "[b]" t] by (simp add: b_def t_def Let_def)
    from Cons.IH [of "B - t"] obtain k where k: "k \<le> length rs"
      "context_loop rs (B - t) [] 0 = take k (map content_with_source rs)"
      "cumulative_cost (take k (map content_with_source rs)) \<le> max 0 (B - t)"
      "\<forall>j \<le> length rs. cumulative_cost (take j (map content_with_source rs)) \<le> B - t \<longrightarrow> j \<le> k"
      "k < length rs \<longrightarrow> B - t < cumulative_cost (take (Suc k) (map content_with_source rs))"
      by blast
    have 1: "context_loop (r # rs) B [] 0 = take (Suc k) (map content_with_source (r # rs))"
      using l k(2) by (simp add: b_def)
    have 2: "cumulative_cost (take (Suc k) (map content_with_source (r # rs))) \<le> max 0 B"
      using k(3) False t0 by (simp add: b_def t_def)
    have 3: "\<forall>j \<le> length (r # rs). cumulative_cost (take j (map content_with_source (r # rs))) \<le> B \<longrightarrow> j \<le> Suc k"
    proof (intro allI impI)
      fix j assume j: "j \<le> length (r # rs)"
        and c: "cumulative_cost (take j (map content_with_source (r # rs))) \<le> B"
      show "j \<le> Suc k"
      proof (cases j)
        case 0
        then show ?thesis by simp
      next
        case (Suc j')
        then have "cumulative_cost (take j' (map content_with_source rs)) \<le> B - t"
          using c by (simp add: b_def t_def)
        moreover have "j' \<le> length rs" using j Suc by simp
        ultimately have "j' \<le> k" using k(4) by blast
        then show ?thesis using Suc by simp
      qed
    qed
    have 4: "Suc k < length (r # rs) \<longrightarrow> B < cumulative_cost (take (Suc (Suc k)) (map content_with_source (r # rs)))"
    proof
      assume "Suc k < length (r # rs)"
      then have "B - t < cumulative_cost (take (Suc k) (map content_with_source rs))"
        using k(5) by simp
      then show "B < cumulative_cost (take (Suc (Suc k)) (map content_with_source (r # rs)))"
        by (simp add: b_def t_def)
    qed
    have 0: "Suc k \<le> length (r # rs)" using k(1) by simp
    show ?thesis
    proof (rule exI [of _ "Suc k"], intro conjI)
      show "Suc k \<le> length (r # rs)" by (rule 0)
      show "context_loop (r # rs) B [] 0 = take (Suc k) (map content_with_source (r # rs))"
        by (rule 1)
      show "cumulative_cost (take (Suc k) (map content_with_source (r # rs))) \<le> max 0 B"
        by (rule 2)
      show "\<forall>j \<le> length (r # rs). cumulative_cost (take j (map content_with_source (r # rs))) \<le> B \<longrightarrow> j \<le> Suc k"
        by (rule 3)
      show "Suc k < length (r # rs) \<longrightarrow> B < cumulative_cost (take (Suc (Suc k)) (map content_with_source (r # rs)))"
        by (rule 4)
    qed
  qed
qed
lemma join_separated: "join sep bs = separated sep bs"
proof (induction sep bs rule: join.induct)
  case (1 sep)
  then show ?case by (simp add: separated_def)
next
  case (2 sep x)
  then show ?case by (simp add: separated_def)
next
  case (3 sep x y ys)
  then show ?case by (simp add: separated_def)
qed

lemma context_loop_negative:
  assumes "B < 0"
  shows "context_loop (r # rest) B [] 0 = []"
proof -
  have "0 \<le> estimated_tokens (content_with_source r)" by (rule estimated_tokens_nonneg)
  then have "B < 0 + estimated_tokens (content_with_source r)" using assms by simp
  then show ?thesis by (simp add: Let_def)
qed

text \<open>
  C2. For no results the context is the sentinel. For results and a budget that is not
  negative, the context is the blocks of the first \<open>k\<close> results, whole and in order, with
  the delimiter between each two, where \<open>k\<close> is the length of the longest prefix whose
  cost (the sum over its blocks of the length divided by four) is at most the budget: the
  cost of the \<open>k\<close> blocks is within the budget, no longer prefix is within it, and when a
  block is left the first \<open>k + 1\<close> blocks exceed it. For results and a negative budget the
  context is the empty string.
\<close>

theorem prepare_context_longest_prefix:
  "prepare_context [] B = ''No relevant information found.''
   \<and> (rs \<noteq> [] \<and> 0 \<le> B \<longrightarrow>
     (\<exists>k \<le> length rs.
        prepare_context rs B = separated ''\<newline>---\<newline>'' (take k (map content_with_source rs))
        \<and> cumulative_cost (take k (map content_with_source rs)) \<le> B
        \<and> (\<forall>j \<le> length rs. cumulative_cost (take j (map content_with_source rs)) \<le> B \<longrightarrow> j \<le> k)
        \<and> (k < length rs \<longrightarrow> B < cumulative_cost (take (Suc k) (map content_with_source rs)))))
   \<and> (rs \<noteq> [] \<and> B < 0 \<longrightarrow> prepare_context rs B = [])"
proof (intro conjI impI)
  show "prepare_context [] B = ''No relevant information found.''"
    by (simp add: prepare_context_def)
next
  assume a: "rs \<noteq> [] \<and> 0 \<le> B"
  then have ne: "rs \<noteq> []" and nonneg: "0 \<le> B" by simp_all
  from context_loop_prefix [of rs B] obtain k where k: "k \<le> length rs"
    "context_loop rs B [] 0 = take k (map content_with_source rs)"
    "cumulative_cost (take k (map content_with_source rs)) \<le> max 0 B"
    "\<forall>j \<le> length rs. cumulative_cost (take j (map content_with_source rs)) \<le> B \<longrightarrow> j \<le> k"
    "k < length rs \<longrightarrow> B < cumulative_cost (take (Suc k) (map content_with_source rs))"
    by blast
  have 1: "prepare_context rs B = separated ''\<newline>---\<newline>'' (take k (map content_with_source rs))"
    using ne k(2) by (simp only: prepare_context_def if_False join_separated)
  have 2: "cumulative_cost (take k (map content_with_source rs)) \<le> B"
    using k(3) nonneg by simp
  show "\<exists>k \<le> length rs.
        prepare_context rs B = separated ''\<newline>---\<newline>'' (take k (map content_with_source rs))
        \<and> cumulative_cost (take k (map content_with_source rs)) \<le> B
        \<and> (\<forall>j \<le> length rs. cumulative_cost (take j (map content_with_source rs)) \<le> B \<longrightarrow> j \<le> k)
        \<and> (k < length rs \<longrightarrow> B < cumulative_cost (take (Suc k) (map content_with_source rs)))"
  proof (rule exI [of _ k], intro conjI)
    show "k \<le> length rs" by (rule k(1))
    show "prepare_context rs B = separated ''\<newline>---\<newline>'' (take k (map content_with_source rs))"
      by (rule 1)
    show "cumulative_cost (take k (map content_with_source rs)) \<le> B" by (rule 2)
    show "\<forall>j \<le> length rs. cumulative_cost (take j (map content_with_source rs)) \<le> B \<longrightarrow> j \<le> k"
      by (rule k(4))
    show "k < length rs \<longrightarrow> B < cumulative_cost (take (Suc k) (map content_with_source rs))"
      by (rule k(5))
  qed
next
  assume a: "rs \<noteq> [] \<and> B < 0"
  then obtain r rest where rs: "rs = r # rest" by (cases rs) auto
  have "context_loop rs B [] 0 = []"
    unfolding rs using a by (intro context_loop_negative) simp
  then show "prepare_context rs B = []"
    using a by (simp add: prepare_context_def)
qed

theorem prepare_context_longest_prefix_witness:
  "[outlook_result, growth_result, revenue_result] \<noteq> []
   \<and> map (\<lambda>r. int (length (content_with_source r))) [outlook_result, growth_result, revenue_result]
       = [43, 48, 43]
   \<and> prepare_context [outlook_result, growth_result, revenue_result] 22
       = ''[Source: annual_report.txt - Acme]\<newline>outlook\<newline>\<newline>---\<newline>[Source: annual_report.txt - Acme]\<newline>revenue grew\<newline>''
   \<and> prepare_context [outlook_result, growth_result, revenue_result] 21
       = ''[Source: annual_report.txt - Acme]\<newline>outlook\<newline>''
   \<and> prepare_context [outlook_result, growth_result, revenue_result] (- 1) = []"
proof -
  let ?rs = "[outlook_result, growth_result, revenue_result]"
  let ?bs = "map content_with_source ?rs"
  let ?sep = "''\<newline>---\<newline>''"
  have ne: "?rs \<noteq> []" by simp
  have len: "map (\<lambda>r. int (length (content_with_source r))) ?rs = [43, 48, 43]" by code_simp
  have c1: "cumulative_cost (take 1 ?bs) = 10" by code_simp
  have c2: "cumulative_cost (take 2 ?bs) = 22" by code_simp
  have c3: "cumulative_cost (take 3 ?bs) = 32" by code_simp
  have j1: "separated ?sep (take 1 ?bs) = ''[Source: annual_report.txt - Acme]\<newline>outlook\<newline>''"
    by code_simp
  have j2: "separated ?sep (take 2 ?bs)
      = ''[Source: annual_report.txt - Acme]\<newline>outlook\<newline>\<newline>---\<newline>[Source: annual_report.txt - Acme]\<newline>revenue grew\<newline>''"
    by code_simp
  have lrs: "length ?rs = 3" by simp
  have both: "prepare_context ?rs 22 = separated ?sep (take 2 ?bs)"
  proof -
    from prepare_context_longest_prefix [of 22 ?rs] ne
    obtain k where k: "k \<le> length ?rs"
      "prepare_context ?rs 22 = separated ?sep (take k ?bs)"
      "cumulative_cost (take k ?bs) \<le> 22"
      "\<forall>j \<le> length ?rs. cumulative_cost (take j ?bs) \<le> 22 \<longrightarrow> j \<le> k"
      by auto
    have "2 \<le> length ?rs \<and> cumulative_cost (take 2 ?bs) \<le> 22" using c2 by simp
    then have lo: "2 \<le> k" using k(4) by blast
    have "k \<noteq> 3" using k(3) c3 by auto
    moreover have "k \<le> 3" using k(1) lrs by simp
    ultimately have "k = 2" using lo by linarith
    then show ?thesis using k(2) by simp
  qed
  have one: "prepare_context ?rs 21 = separated ?sep (take 1 ?bs)"
  proof -
    from prepare_context_longest_prefix [of 21 ?rs] ne
    obtain k where k: "k \<le> length ?rs"
      "prepare_context ?rs 21 = separated ?sep (take k ?bs)"
      "cumulative_cost (take k ?bs) \<le> 21"
      "\<forall>j \<le> length ?rs. cumulative_cost (take j ?bs) \<le> 21 \<longrightarrow> j \<le> k"
      by auto
    have "1 \<le> length ?rs \<and> cumulative_cost (take 1 ?bs) \<le> 21" using c1 by simp
    then have lo: "1 \<le> k" using k(4) by blast
    have "k \<noteq> 3" "k \<noteq> 2" using k(3) c3 c2 by auto
    moreover have "k \<le> 3" using k(1) lrs by simp
    ultimately have "k = 1" using lo by linarith
    then show ?thesis using k(2) by simp
  qed
  from prepare_context_longest_prefix [of "- 1" ?rs] ne
  have neg: "prepare_context ?rs (- 1) = []" by auto
  show ?thesis using ne len both one neg unfolding j1 j2 by blast
qed

text \<open>
  The claim as first stated fails for a negative budget: no prefix of the blocks, not even
  the empty one, costs at most \<open>-1\<close>, and the context is the empty string.
\<close>

theorem prepare_context_negative_budget:
  "prepare_context [outlook_result] (- 1) = []
   \<and> \<not> cumulative_cost [] \<le> - 1
   \<and> \<not> cumulative_cost [content_with_source outlook_result] \<le> - 1"
proof (intro conjI)
  show "prepare_context [outlook_result] (- 1) = []" by code_simp
  show "\<not> cumulative_cost [] \<le> - 1" by simp
  show "\<not> cumulative_cost [content_with_source outlook_result] \<le> - 1"
    using cumulative_cost_nonneg [of "[content_with_source outlook_result]"] by linarith
qed

text \<open>
  C10. When the block of the first result alone costs more than the budget, the context
  of a non-empty list of results is the empty string, which is not the sentinel.
\<close>

theorem prepare_context_first_block_over_budget:
  assumes "B < estimated_tokens (content_with_source r)"
  shows "prepare_context (r # rest) B = []
     \<and> prepare_context (r # rest) B \<noteq> ''No relevant information found.''"
proof -
  have "context_loop (r # rest) B [] 0 = []"
    using assms by (simp add: Let_def)
  then have "prepare_context (r # rest) B = []"
    by (simp add: prepare_context_def)
  then show ?thesis by simp
qed

theorem prepare_context_first_block_over_budget_witness:
  "(9::int) < estimated_tokens (content_with_source outlook_result)
   \<and> prepare_context [outlook_result, revenue_result] 9 = []"
proof -
  have h: "(9::int) < estimated_tokens (content_with_source outlook_result)"
    by code_simp
  from prepare_context_first_block_over_budget [OF h, of "[revenue_result]"]
  show ?thesis using h by simp
qed

section \<open>Properties of the query operation\<close>

lemma query_short_circuit:
  "create_query_embedding env question = [] \<Longrightarrow>
   query env s question n t f1 f2 f3 =
     Inr \<lparr>q_answer = ''Error creating query embedding'', q_sources = [],
          q_context = [], q_metadata = None\<rparr>"
  by (simp add: query_def)

lemma generate_response_escapes:
  "generate_response env question c = Inl e \<Longrightarrow>
     (\<exists>m. rag_prompt env = PromptUnreadable m \<and> e = OSError m)
     \<or> (\<exists>tmpl. str_format env tmpl c question = Inl e)"
  by (auto simp: generate_response_def Let_def split: prompt_file.splits sum.splits prod.splits)

lemma search_escapes:
  "search_similar_chunks env s q limit t f1 f2 f3 = Inl e \<Longrightarrow>
     (\<exists>m. connect_error env = Some m \<and> e = OperationalError m)"
  by (auto simp: search_similar_chunks_def split: option.splits sum.splits)

lemma query_escapes:
  assumes "query env s question n t f1 f2 f3 = Inl e"
  shows "(\<exists>m. connect_error env = Some m \<and> e = OperationalError m)
     \<or> (\<exists>m. rag_prompt env = PromptUnreadable m \<and> e = OSError m)
     \<or> (\<exists>tmpl c. str_format env tmpl c question = Inl e)"
proof -
  let ?q = "create_query_embedding env question"
  have ne: "?q \<noteq> []" using assms by (auto simp: query_def)
  show ?thesis
  proof (cases "search_similar_chunks env s ?q n t f1 f2 f3")
    case (Inl x)
    then have "x = e" using assms ne by (simp add: query_def)
    then show ?thesis using search_escapes Inl by blast
  next
    case (Inr rs)
    then have "generate_response env question (prepare_context rs 3000) = Inl e"
      using assms ne by (simp add: query_def Let_def split: sum.splits)
    from generate_response_escapes [OF this] show ?thesis by blast
  qed
qed
text \<open>
  What \<open>query\<close> does with a failure: a failure of the embedding gives the error result at
  once, and an exception leaves \<open>query\<close> only from opening the store connection, from
  reading an existing prompt template file or from formatting the template. A failure of
  the execution of the ranking query is caught and gives no results.
\<close>

lemma query_failure_modes:
  "(query_embeddings_create env question = Inl m \<longrightarrow>
       query env s question n t f1 f2 f3 =
         Inr \<lparr>q_answer = ''Error creating query embedding'', q_sources = [],
              q_context = [], q_metadata = None\<rparr>)
   \<and> (create_query_embedding env question = [] \<longrightarrow>
       query env s question n t f1 f2 f3 =
         Inr \<lparr>q_answer = ''Error creating query embedding'', q_sources = [],
              q_context = [], q_metadata = None\<rparr>)
   \<and> (query env s question n t f1 f2 f3 = Inl e \<longrightarrow>
         (\<exists>msg. connect_error env = Some msg \<and> e = OperationalError msg)
         \<or> (\<exists>msg. rag_prompt env = PromptUnreadable msg \<and> e = OSError msg)
         \<or> (\<exists>tmpl c. str_format env tmpl c question = Inl e))"
proof (intro conjI impI)
  assume "query_embeddings_create env question = Inl m"
  then have "create_query_embedding env question = []"
    by (simp add: create_query_embedding_def)
  then show "query env s question n t f1 f2 f3 =
         Inr \<lparr>q_answer = ''Error creating query embedding'', q_sources = [],
              q_context = [], q_metadata = None\<rparr>"
    by (rule query_short_circuit)
next
  assume "create_query_embedding env question = []"
  then show "query env s question n t f1 f2 f3 =
         Inr \<lparr>q_answer = ''Error creating query embedding'', q_sources = [],
              q_context = [], q_metadata = None\<rparr>"
    by (rule query_short_circuit)
next
  assume "query env s question n t f1 f2 f3 = Inl e"
  then show "(\<exists>msg. connect_error env = Some msg \<and> e = OperationalError msg)
         \<or> (\<exists>msg. rag_prompt env = PromptUnreadable msg \<and> e = OSError msg)
         \<or> (\<exists>tmpl c. str_format env tmpl c question = Inl e)"
    by (rule query_escapes)
qed

lemma execution_failure_is_caught:
  "connect_error env = None \<Longrightarrow> execute_error env = Some msg \<Longrightarrow>
   search_similar_chunks env s q limit t f1 f2 f3 = Inr []"
  by (simp add: search_similar_chunks_def execute_full_query_def)

text \<open>
  C7. A failure of the embedding gives the error result, as claimed, but an exception does
  leave \<open>query\<close>: when the store cannot be reached, the question is embedded, and the error
  of \<open>psycopg2.connect\<close>, raised before the \<open>try\<close> of \<open>search_similar_chunks\<close>, leaves
  \<open>search_similar_chunks\<close> and \<open>query\<close>. The failure of the execution of the query, inside
  that \<open>try\<close>, is caught.
\<close>

theorem query_connection_failure_escapes:
  "create_query_embedding no_connection_env ''What is the outlook?'' = [1, 0]
   \<and> query no_connection_env annual_store ''What is the outlook?'' 5 0 None None None
        = Inl (OperationalError ''connection refused'')
   \<and> query no_embedding_env annual_store ''What is the outlook?'' 5 0 None None None
        = Inr \<lparr>q_answer = ''Error creating query embedding'', q_sources = [],
               q_context = [], q_metadata = None\<rparr>"
proof (intro conjI)
  show "create_query_embedding no_connection_env ''What is the outlook?'' = [1, 0]"
    by (simp add: create_query_embedding_def no_connection_env_def working_retriever_env_def)
  show "query no_connection_env annual_store ''What is the outlook?'' 5 0 None None None
        = Inl (OperationalError ''connection refused'')"
    by code_simp
  show "query no_embedding_env annual_store ''What is the outlook?'' 5 0 None None None
        = Inr \<lparr>q_answer = ''Error creating query embedding'', q_sources = [],
               q_context = [], q_metadata = None\<rparr>"
    by code_simp
qed

end
